theory Spec2Isabelle
  imports Complex_Main
begin

section \<open>Key-case transformer (utils/transformers.ts)\<close>

text \<open>
  Strings are lists of 8-bit characters. The two regular expressions of the source,
  \<^verbatim>\<open>/[A-Z]/g\<close> and \<^verbatim>\<open>/_([a-z])/g\<close>, only look at the ASCII ranges A-Z and a-z and at the
  underscore, so a character outside ASCII is never matched and is copied as it is.
\<close>

definition is_upper :: "char \<Rightarrow> bool" where
  "is_upper c = (65 \<le> (of_char c :: nat) \<and> (of_char c :: nat) \<le> 90)"

definition is_lower :: "char \<Rightarrow> bool" where
  "is_lower c = (97 \<le> (of_char c :: nat) \<and> (of_char c :: nat) \<le> 122)"

definition is_letter :: "char \<Rightarrow> bool" where
  "is_letter c = (is_upper c \<or> is_lower c)"

definition toLowerCase :: "char \<Rightarrow> char" where
  "toLowerCase c = (if is_upper c then char_of ((of_char c :: nat) + 32) else c)"

definition toUpperCase :: "char \<Rightarrow> char" where
  "toUpperCase c = (if is_lower c then char_of ((of_char c :: nat) - 32) else c)"

text \<open>
  \<^verbatim>\<open>str.replace(/[A-Z]/g, letter => `_${letter.toLowerCase()}`)\<close>: every upper-case letter
  is replaced by an underscore and its lower-case form.
\<close>

fun camelToSnake :: "string \<Rightarrow> string" where
  "camelToSnake [] = []"
| "camelToSnake (c # s) =
     (if is_upper c then CHR ''_'' # toLowerCase c # camelToSnake s
      else c # camelToSnake s)"

text \<open>
  \<^verbatim>\<open>str.replace(/_([a-z])/g, (_, letter) => letter.toUpperCase())\<close>: the string is scanned
  from the left; a match consumes the underscore and the lower-case letter after it, and
  the scan goes on behind the match.
\<close>

fun snakeToCamel :: "string \<Rightarrow> string" where
  "snakeToCamel [] = []"
| "snakeToCamel [c] = [c]"
| "snakeToCamel (c # d # s) =
     (if c = CHR ''_'' \<and> is_lower d then toUpperCase d # snakeToCamel s
      else c # snakeToCamel (d # s))"

text \<open>
  The rule of the specification, read position by position: position \<open>i\<close> of \<open>s\<close> is an
  underscore followed by a letter of the class \<open>L\<close>; such an underscore is removed and
  the letter behind it is upper-cased, every other character stays. The class \<open>L\<close> is
  a parameter: the specification says "a letter", the source matches \<^verbatim>\<open>[a-z]\<close>.
\<close>

definition underscore_pair :: "(char \<Rightarrow> bool) \<Rightarrow> string \<Rightarrow> nat \<Rightarrow> bool" where
  "underscore_pair L s i = (i + 1 < length s \<and> s ! i = CHR ''_'' \<and> L (s ! (i + 1)))"

definition rewrite_at :: "(char \<Rightarrow> bool) \<Rightarrow> string \<Rightarrow> nat \<Rightarrow> string" where
  "rewrite_at L s i =
     (if underscore_pair L s i then []
      else if 0 < i \<and> underscore_pair L s (i - 1) then [toUpperCase (s ! i)]
      else [s ! i])"

definition snakeToCamel_rule :: "(char \<Rightarrow> bool) \<Rightarrow> string \<Rightarrow> string" where
  "snakeToCamel_rule L s = concat (map (rewrite_at L s) [0..<length s])"

definition snakeToCamel_spec :: "string \<Rightarrow> string" where
  "snakeToCamel_spec s = snakeToCamel_rule is_letter s"

text \<open>
  JSON-like values. An object is the list of its own enumerable entries in the order of
  \<^verbatim>\<open>Object.entries\<close>; in a value of the program every key occurs once (\<open>distinct_keys\<close>).
  Numbers are integers here; the transformer passes every scalar through untouched.
\<close>

datatype json =
    JNull
  | JBool bool
  | JNum int
  | JStr string
  | JArr "json list"
  | JObj "(string \<times> json) list"

text \<open>
  \<^verbatim>\<open>transformed[key] = value\<close> on an object that started as \<^verbatim>\<open>{}\<close>. For an ordinary
  key an existing entry keeps its place and gets the new value, and a new key is
  appended.

  The key \<^verbatim>\<open>__proto__\<close> is special in the language. A fresh object inherits the accessor
  \<^verbatim>\<open>__proto__\<close> of \<^verbatim>\<open>Object.prototype\<close>, and an assignment to that key runs the inherited
  setter: it creates no entry; given \<^verbatim>\<open>null\<close> or an object it replaces the prototype of
  \<^verbatim>\<open>transformed\<close>, given any other value it does nothing. Once the prototype is \<^verbatim>\<open>null\<close>,
  or an object that has itself lost the accessor, the setter is out of reach and
  \<^verbatim>\<open>__proto__\<close> is an ordinary key from then on.

  So an object under construction is its list of entries together with a flag: the
  inherited setter is still in reach. A transformed value carries the flag of its object
  (\<open>True\<close> for an array and for a scalar).
\<close>

fun assign :: "(string \<times> json) list \<Rightarrow> string \<Rightarrow> json \<Rightarrow> (string \<times> json) list" where
  "assign [] k v = [(k, v)]"
| "assign ((k', v') # rest) k v =
     (if k' = k then (k, v) # rest else (k', v') # assign rest k v)"

type_synonym js_object = "(string \<times> json) list \<times> bool"

definition set_property :: "js_object \<Rightarrow> string \<Rightarrow> json \<times> bool \<Rightarrow> js_object" where
  "set_property obj k v =
     (if k = ''__proto__'' \<and> snd obj
      then (fst obj, (case fst v of JNull \<Rightarrow> False | JObj es \<Rightarrow> snd v | _ \<Rightarrow> True))
      else (assign (fst obj) k (fst v), snd obj))"

fun transformKeysToSnake_js :: "json \<Rightarrow> json \<times> bool" where
  "transformKeysToSnake_js (JArr xs) = (JArr (map (\<lambda>x. fst (transformKeysToSnake_js x)) xs), True)"
| "transformKeysToSnake_js (JObj kvs) =
     (let transformed =
            foldl (\<lambda>transformed (key, val).
                     set_property transformed (camelToSnake key) (transformKeysToSnake_js val))
                  ([], True) kvs
      in (JObj (fst transformed), snd transformed))"
| "transformKeysToSnake_js obj = (obj, True)"

fun transformKeysToCamel_js :: "json \<Rightarrow> json \<times> bool" where
  "transformKeysToCamel_js (JArr xs) = (JArr (map (\<lambda>x. fst (transformKeysToCamel_js x)) xs), True)"
| "transformKeysToCamel_js (JObj kvs) =
     (let transformed =
            foldl (\<lambda>transformed (key, val).
                     set_property transformed (snakeToCamel key) (transformKeysToCamel_js val))
                  ([], True) kvs
      in (JObj (fst transformed), snd transformed))"
| "transformKeysToCamel_js obj = (obj, True)"

text \<open>
  The value a caller gets. Two values are compared by their entries, as a deep comparison
  and \<^verbatim>\<open>JSON.stringify\<close> do.
\<close>

definition transformKeysToSnake :: "json \<Rightarrow> json" where
  "transformKeysToSnake obj = fst (transformKeysToSnake_js obj)"

definition transformKeysToCamel :: "json \<Rightarrow> json" where
  "transformKeysToCamel obj = fst (transformKeysToCamel_js obj)"

text \<open>Predicates on the keys of a value, at every nesting depth.\<close>

fun all_keys :: "(string \<Rightarrow> bool) \<Rightarrow> json \<Rightarrow> bool" where
  "all_keys P (JArr xs) = list_all (all_keys P) xs"
| "all_keys P (JObj kvs) = list_all (\<lambda>(k, v). P k \<and> all_keys P v) kvs"
| "all_keys P obj = True"

fun distinct_keys :: "json \<Rightarrow> bool" where
  "distinct_keys (JArr xs) = list_all distinct_keys xs"
| "distinct_keys (JObj kvs) =
     (distinct (map fst kvs) \<and> list_all (\<lambda>(k, v). distinct_keys v) kvs)"
| "distinct_keys obj = True"

definition letters_only :: "string \<Rightarrow> bool" where
  "letters_only k = list_all is_letter k"

definition no_underscore :: "string \<Rightarrow> bool" where
  "no_underscore k = (CHR ''_'' \<notin> set k)"

definition no_upper :: "string \<Rightarrow> bool" where
  "no_upper k = (\<not> list_ex is_upper k)"

definition snake_key :: "string \<Rightarrow> bool" where
  "snake_key k = (no_upper k \<and> k \<noteq> ''__proto__'')"

text \<open>A key that \<open>camelToSnake\<close> does not turn into \<^verbatim>\<open>__proto__\<close>.\<close>

definition ordinary_key :: "string \<Rightarrow> bool" where
  "ordinary_key k = (camelToSnake k \<noteq> ''__proto__'')"

section \<open>Typed errors (types/errors.ts)\<close>

text \<open>
  The body of an error response, read at the types the source declares for it: the
  optional strings \<^verbatim>\<open>error\<close>, \<^verbatim>\<open>message\<close> and \<^verbatim>\<open>error_description\<close>. An HTTP response has
  a status, a decoded body (\<open>None\<close>: no body) and headers. A thrown value is known
  by what the handlers read of it: \<^verbatim>\<open>error.response\<close>, whether \<^verbatim>\<open>error.request\<close> is set,
  \<^verbatim>\<open>error.code\<close> and \<^verbatim>\<open>error.message\<close>. A failure of axios has this shape; a plain
  \<^verbatim>\<open>Error\<close> has a message and neither response nor request.
\<close>

record error_body =
  body_error :: "string option"
  body_message :: "string option"
  body_error_description :: "string option"

record http_response =
  status :: nat
  data :: "error_body option"
  headers :: "(string \<times> string) list"

record axios_error =
  response :: "http_response option"
  request :: bool
  axios_code :: "string option"
  axios_message :: string

datatype error_class =
    PayfirmaErrorBase
  | AuthenticationError
  | NetworkError
  | ApiError
  | ValidationError
  | PaymentError
  | NotFoundError
  | RateLimitError
  | ConfigurationError

datatype details =
    Body "error_body option"
  | ResourceType string
  | RateLimitInfo
  | StatusAndResponse nat "error_body option"
  | OriginalError string

record payfirma_error =
  name :: error_class
  message :: string
  code :: string
  statusCode :: "nat option"
  details :: "details option"
  requestId :: "string option"
  cause :: "axios_error option"

text \<open>JavaScript truthiness of an optional string, and \<^verbatim>\<open>a || b\<close> with a string default.\<close>

definition truthy :: "string option \<Rightarrow> bool" where
  "truthy a = (case a of None \<Rightarrow> False | Some s \<Rightarrow> s \<noteq> [])"

definition or_default :: "string option \<Rightarrow> string \<Rightarrow> string" where
  "or_default a b = (case a of None \<Rightarrow> b | Some s \<Rightarrow> if s \<noteq> [] then s else b)"

text \<open>The constructors of the error classes, with the code and status each one fixes.\<close>

definition new_AuthenticationError ::
  "string \<Rightarrow> details option \<Rightarrow> string option \<Rightarrow> axios_error option \<Rightarrow> payfirma_error" where
  "new_AuthenticationError msg det rid cs =
     \<lparr>name = AuthenticationError, message = msg, code = ''AUTHENTICATION_FAILED'',
      statusCode = Some 401, details = det, requestId = rid, cause = cs\<rparr>"

definition new_NetworkError ::
  "string \<Rightarrow> axios_error option \<Rightarrow> string option \<Rightarrow> payfirma_error" where
  "new_NetworkError msg cs rid =
     \<lparr>name = NetworkError, message = msg, code = ''NETWORK_ERROR'',
      statusCode = None, details = None, requestId = rid, cause = cs\<rparr>"

definition new_ApiError ::
  "string \<Rightarrow> nat \<Rightarrow> string \<Rightarrow> details option \<Rightarrow> string option \<Rightarrow> payfirma_error" where
  "new_ApiError msg st cd det rid =
     \<lparr>name = ApiError, message = msg, code = cd,
      statusCode = Some st, details = det, requestId = rid, cause = None\<rparr>"

definition new_ValidationError ::
  "string \<Rightarrow> details option \<Rightarrow> string option \<Rightarrow> payfirma_error" where
  "new_ValidationError msg det rid =
     \<lparr>name = ValidationError, message = msg, code = ''VALIDATION_ERROR'',
      statusCode = Some 400, details = det, requestId = rid, cause = None\<rparr>"

definition new_PaymentError ::
  "string \<Rightarrow> string \<Rightarrow> details option \<Rightarrow> string option \<Rightarrow> payfirma_error" where
  "new_PaymentError msg cd det rid =
     \<lparr>name = PaymentError, message = msg, code = cd,
      statusCode = Some 402, details = det, requestId = rid, cause = None\<rparr>"

definition new_NotFoundError :: "string \<Rightarrow> string \<Rightarrow> string option \<Rightarrow> payfirma_error" where
  "new_NotFoundError msg resourceType rid =
     \<lparr>name = NotFoundError, message = msg, code = ''TRANSACTION_NOT_FOUND'',
      statusCode = Some 404, details = Some (ResourceType resourceType), requestId = rid,
      cause = None\<rparr>"

definition new_RateLimitError :: "string \<Rightarrow> string option \<Rightarrow> payfirma_error" where
  "new_RateLimitError msg rid =
     \<lparr>name = RateLimitError, message = msg, code = ''RATE_LIMIT_EXCEEDED'',
      statusCode = Some 429, details = Some RateLimitInfo, requestId = rid, cause = None\<rparr>"

definition new_ConfigurationError :: "string \<Rightarrow> details option \<Rightarrow> payfirma_error" where
  "new_ConfigurationError msg det =
     \<lparr>name = ConfigurationError, message = msg, code = ''INVALID_CONFIGURATION'',
      statusCode = None, details = det, requestId = None, cause = None\<rparr>"

text \<open>\<^verbatim>\<open>str.replace(pattern, replacement)\<close> with a string pattern: the first occurrence.\<close>

fun replace_first :: "string \<Rightarrow> string \<Rightarrow> string \<Rightarrow> string" where
  "replace_first pat rep [] = (if pat = [] then rep else [])"
| "replace_first pat rep (c # s) =
     (if take (length pat) (c # s) = pat then rep @ drop (length pat) (c # s)
      else c # replace_first pat rep s)"

record ErrorResponse =
  er_code :: string
  er_message :: string
  er_status :: "nat option"
  er_details :: "details option"
  er_request_id :: "string option"

text \<open>\<^verbatim>\<open>ErrorFactory.fromApiResponse\<close>: the switch on the code string.\<close>

definition fromApiResponse :: "ErrorResponse \<Rightarrow> axios_error option \<Rightarrow> payfirma_error" where
  "fromApiResponse resp cs =
     (let cd = er_code resp; msg = er_message resp; st = er_status resp;
          det = er_details resp; request_id = er_request_id resp
      in
      if cd = ''AUTHENTICATION_FAILED'' \<or> cd = ''TOKEN_EXPIRED'' \<or> cd = ''INVALID_CREDENTIALS''
        then new_AuthenticationError msg det request_id cs
      else if cd = ''VALIDATION_ERROR'' \<or> cd = ''REQUIRED_FIELD_MISSING'' \<or> cd = ''INVALID_FORMAT''
        then new_ValidationError msg det request_id
      else if cd = ''PAYMENT_DECLINED'' \<or> cd = ''PAYMENT_FAILED'' \<or> cd = ''CARD_DECLINED''
        then new_PaymentError msg cd det request_id
      else if cd = ''RATE_LIMIT_EXCEEDED''
        then new_RateLimitError msg request_id
      else if cd = ''TRANSACTION_NOT_FOUND'' \<or> cd = ''CUSTOMER_NOT_FOUND'' \<or>
              cd = ''PLAN_NOT_FOUND'' \<or> cd = ''INVOICE_NOT_FOUND''
        then new_NotFoundError msg (replace_first ''_NOT_FOUND'' [] cd) request_id
      else new_ApiError msg (case st of None \<Rightarrow> 500 | Some n \<Rightarrow> if n = 0 then 500 else n)
             cd det request_id)"

definition networkError :: "string \<Rightarrow> axios_error option \<Rightarrow> payfirma_error" where
  "networkError msg cs = new_NetworkError msg cs None"

text \<open>Decimal digits of a number, for \<^verbatim>\<open>`... ${status}`\<close>.\<close>

fun decimal :: "nat \<Rightarrow> string" where
  "decimal n =
     (if n < 10 then [char_of (48 + n)]
      else decimal (n div 10) @ [char_of (48 + n mod 10)])"

declare decimal.simps [simp del]

section \<open>HTTP transport (utils/apiClient.ts)\<close>











section \<open>Error classification of a service (services/PlanService.ts)\<close>

definition handleError :: "axios_error \<Rightarrow> payfirma_error" where
  "handleError error =
     (case response error of
        Some resp \<Rightarrow>
          (if truthy (Option.bind (data resp) body_error)
           then fromApiResponse
                  \<lparr>er_code = the (body_error (the (data resp))),
                   er_message = or_default (body_message (the (data resp))) ''Plan service error'',
                   er_status = Some (status resp),
                   er_details = Some (Body (data resp)),
                   er_request_id = map_of (headers resp) ''x-request-id''\<rparr>
                  (Some error)
           else fromApiResponse
                  \<lparr>er_code = ''API_ERROR'',
                   er_message = ''Plan service error: '' @ decimal (status resp),
                   er_status = Some (status resp),
                   er_details = Some (Body (data resp)),
                   er_request_id = map_of (headers resp) ''x-request-id''\<rparr>
                  (Some error))
      | None \<Rightarrow>
          (if request error then networkError ''Network error in plan service'' (Some error)
           else fromApiResponse
                  \<lparr>er_code = ''UNKNOWN_ERROR'',
                   er_message = ''Unknown error in plan service'',
                   er_status = None, er_details = None, er_request_id = None\<rparr>
                  (Some error)))"



text \<open>The codes that the switch of \<^verbatim>\<open>fromApiResponse\<close> names.\<close>

definition known_codes :: "string list" where
  "known_codes =
     [''AUTHENTICATION_FAILED'', ''TOKEN_EXPIRED'', ''INVALID_CREDENTIALS'',
      ''VALIDATION_ERROR'', ''REQUIRED_FIELD_MISSING'', ''INVALID_FORMAT'',
      ''PAYMENT_DECLINED'', ''PAYMENT_FAILED'', ''CARD_DECLINED'',
      ''RATE_LIMIT_EXCEEDED'',
      ''TRANSACTION_NOT_FOUND'', ''CUSTOMER_NOT_FOUND'', ''PLAN_NOT_FOUND'', ''INVOICE_NOT_FOUND'']"


section \<open>SDK configuration (types/common.ts, PayfirmaSDK.ts)\<close>

text \<open>
  A JavaScript number is a finite value (a real number here; \<^verbatim>\<open>-0\<close> is 0), \<^verbatim>\<open>NaN\<close>,
  \<^verbatim>\<open>Infinity\<close> or \<^verbatim>\<open>-Infinity\<close>. A number is truthy unless it is 0 or \<^verbatim>\<open>NaN\<close>; the
  comparisons \<^verbatim>\<open>n < k\<close> and \<^verbatim>\<open>n > k\<close> with a finite constant \<open>k\<close> are false for \<^verbatim>\<open>NaN\<close>.
\<close>

datatype number = Finite real | NaN | Infinity | NegInfinity

fun number_truthy :: "number \<Rightarrow> bool" where
  "number_truthy (Finite x) = (x \<noteq> 0)"
| "number_truthy NaN = False"
| "number_truthy Infinity = True"
| "number_truthy NegInfinity = True"

fun number_less :: "number \<Rightarrow> real \<Rightarrow> bool" where
  "number_less (Finite x) k = (x < k)"
| "number_less NaN k = False"
| "number_less Infinity k = False"
| "number_less NegInfinity k = True"

fun number_greater :: "number \<Rightarrow> real \<Rightarrow> bool" where
  "number_greater (Finite x) k = (x > k)"
| "number_greater NaN k = False"
| "number_greater Infinity k = True"
| "number_greater NegInfinity k = False"

text \<open>
  \<open>clientId\<close> and \<open>clientSecret\<close> are declared as strings; \<open>None\<close> stands for a property a
  JavaScript caller left out. The timeout is declared as an optional number.
\<close>

record PayfirmaSDKConfig =
  clientId :: "string option"
  clientSecret :: "string option"
  sandbox :: "bool option"
  timeout :: "number option"
  apiUrls_auth :: "string option"
  apiUrls_gateway :: "string option"

record Environment =
  authUrl :: string
  gatewayUrl :: string
  env_name :: string

text \<open>
  \<^verbatim>\<open>validateConfig\<close>: each check throws, so the result is the error of the first check that
  fails. \<^verbatim>\<open>config.timeout && (...)\<close> is a test of truthiness: it skips the range check for
  a timeout that is left out, is 0 or is \<^verbatim>\<open>NaN\<close>.
\<close>

definition validateConfig :: "PayfirmaSDKConfig \<Rightarrow> payfirma_error + unit" where
  "validateConfig config =
     (if \<not> truthy (clientId config)
        then Inl (new_ConfigurationError ''Client ID is required'' None)
      else if \<not> truthy (clientSecret config)
        then Inl (new_ConfigurationError ''Client Secret is required'' None)
      else if (case timeout config of
                 None \<Rightarrow> False
               | Some t \<Rightarrow>
                   number_truthy t \<and> (number_less t 1000 \<or> number_greater t 300000))
        then Inl (new_ConfigurationError ''Timeout must be between 1000ms and 300000ms'' None)
      else Inr ())"

definition getEnvironment :: "PayfirmaSDKConfig \<Rightarrow> bool \<Rightarrow> Environment" where
  "getEnvironment config sb =
     (if sb then
        \<lparr>authUrl = or_default (apiUrls_auth config) ''https://sandbox-auth.payfirma.com'',
         gatewayUrl = or_default (apiUrls_gateway config) ''https://sandbox-apigateway.payfirma.com'',
         env_name = ''sandbox''\<rparr>
      else
        \<lparr>authUrl = or_default (apiUrls_auth config) ''https://auth.payfirma.com'',
         gatewayUrl = or_default (apiUrls_gateway config) ''https://apigateway.payfirma.com'',
         env_name = ''production''\<rparr>)"

section \<open>Token store and refresh coordinator (services/AuthService.ts)\<close>

record TokenResponse =
  tr_access_token :: string
  tr_expires_in :: int
  tr_refresh_token :: "string option"
  tr_merchant_id :: "string option"
  tr_scope :: "string option"

record AuthCredentials =
  access_token :: string
  refresh_token :: "string option"
  expires_at :: int
  merchant_id :: "string option"
  scope :: "string list option"

record TokenValidation =
  valid :: bool
  tv_expires_at :: "int option"
  reason :: "string option"
  needs_refresh :: "bool option"

text \<open>
  The state of one \<^verbatim>\<open>AuthService\<close>: its configuration, the stored credentials and the
  handle of the refresh in flight. A promise is known by a number; the handle holds the
  number of the promise that the refresh in flight will settle.
\<close>

type_synonym promise = nat

record AuthService =
  config :: PayfirmaSDKConfig
  credentials :: "AuthCredentials option"
  tokenRefreshPromise :: "promise option"

text \<open>What the service sends: the refresh grant and the revocation.\<close>

record RefreshTokenRequest =
  grant_type :: string
  rq_refresh_token :: string
  client_id :: "string option"
  client_secret :: "string option"

datatype http_call =
    PostToken RefreshTokenRequest "string option" "string option"
  | DeleteRevokeToken string

datatype 'a outcome = Resolved 'a | Rejected axios_error

text \<open>What a call of the service ends with: a value, or what it throws.\<close>

datatype thrown = Payfirma payfirma_error | TypeError

text \<open>\<^verbatim>\<open>str.split(' ')\<close>.\<close>

fun split_on :: "char \<Rightarrow> string \<Rightarrow> string list" where
  "split_on sep [] = [[]]"
| "split_on sep (c # s) =
     (if c = sep then [] # split_on sep s
      else (case split_on sep s of
              [] \<Rightarrow> [[c]]
            | w # ws \<Rightarrow> (c # w) # ws))"

text \<open>
  The credentials built from a token response by \<^verbatim>\<open>authorizationCodeGrant\<close> and
  \<^verbatim>\<open>refreshToken\<close>, at the time \<open>now\<close> of \<^verbatim>\<open>Date.now()\<close>, and the ones built by
  \<^verbatim>\<open>clientCredentialsGrant\<close>, which stores an optional field only when it is truthy.
\<close>

definition grantCredentials :: "TokenResponse \<Rightarrow> int \<Rightarrow> AuthCredentials" where
  "grantCredentials tokenData now =
     \<lparr>access_token = tr_access_token tokenData,
      refresh_token = tr_refresh_token tokenData,
      expires_at = now + tr_expires_in tokenData * 1000,
      merchant_id = tr_merchant_id tokenData,
      scope = (if truthy (tr_scope tokenData)
               then Some (split_on CHR '' '' (the (tr_scope tokenData))) else None)\<rparr>"

definition clientCredentials :: "TokenResponse \<Rightarrow> int \<Rightarrow> AuthCredentials" where
  "clientCredentials tokenData now =
     \<lparr>access_token = tr_access_token tokenData,
      refresh_token = (if truthy (tr_refresh_token tokenData) then tr_refresh_token tokenData else None),
      expires_at = now + tr_expires_in tokenData * 1000,
      merchant_id = (if truthy (tr_merchant_id tokenData) then tr_merchant_id tokenData else None),
      scope = (if truthy (tr_scope tokenData)
               then Some (split_on CHR '' '' (the (tr_scope tokenData))) else None)\<rparr>"

definition handleAuthError :: "axios_error \<Rightarrow> payfirma_error" where
  "handleAuthError error =
     (case response error of
        Some resp \<Rightarrow>
          (if truthy (Option.bind (data resp) body_error)
           then fromApiResponse
                  \<lparr>er_code = the (body_error (the (data resp))),
                   er_message = or_default (body_error_description (the (data resp)))
                                  ''Authentication failed'',
                   er_status = Some (status resp),
                   er_details = Some (Body (data resp)),
                   er_request_id = map_of (headers resp) ''x-request-id''\<rparr>
                  (Some error)
           else new_AuthenticationError
                  (''Authentication failed: '' @ decimal (status resp))
                  (Some (StatusAndResponse (status resp) (data resp)))
                  (map_of (headers resp) ''x-request-id'')
                  (Some error))
      | None \<Rightarrow>
          (if request error
           then networkError ''Network error during authentication'' (Some error)
           else new_AuthenticationError ''Authentication failed''
                  (Some (OriginalError (axios_message error))) None (Some error)))"

text \<open>\<^verbatim>\<open>validateToken\<close>, at the time \<open>now\<close> of \<^verbatim>\<open>Date.now()\<close>.\<close>

definition validateToken :: "AuthService \<Rightarrow> int \<Rightarrow> TokenValidation" where
  "validateToken s now =
     (case credentials s of
        None \<Rightarrow>
          \<lparr>valid = False, tv_expires_at = None,
           reason = Some ''No credentials available'', needs_refresh = None\<rparr>
      | Some c \<Rightarrow>
          (let expiresAt = expires_at c;
               timeToExpiry = expiresAt - now;
               bufferTime = 5 * 60 * 1000
           in if timeToExpiry \<le> bufferTime
              then \<lparr>valid = False, tv_expires_at = Some expiresAt,
                    reason = Some ''Token expired or expiring soon'',
                    needs_refresh = Some (truthy (refresh_token c))\<rparr>
              else \<lparr>valid = True, tv_expires_at = Some expiresAt,
                    reason = None, needs_refresh = None\<rparr>))"

text \<open>
  \<^verbatim>\<open>refreshToken\<close> runs in two parts. The first part runs when the function is called, up
  to the \<^verbatim>\<open>await\<close> of the network call: it returns the promise in flight when the handle
  is set, throws when no refresh token is at hand, and otherwise sends the request and
  stores the new promise (numbered \<open>fresh\<close>) in the handle. The second part runs when the
  network call settles: it stores the new credentials or classifies the failure, and in
  both cases the \<^verbatim>\<open>finally\<close> block clears the handle. Building the request (the form body
  and the Basic header) does not throw, so the \<^verbatim>\<open>await\<close> is always reached before the
  handle is stored.
\<close>

datatype refresh_start =
    Joined promise
  | Threw payfirma_error
  | Issued promise http_call AuthService

definition refresh_request :: "AuthService \<Rightarrow> string \<Rightarrow> http_call" where
  "refresh_request s tokenToUse =
     PostToken
       \<lparr>grant_type = ''refresh_token'', rq_refresh_token = tokenToUse,
        client_id = clientId (config s), client_secret = clientSecret (config s)\<rparr>
       (clientId (config s)) (clientSecret (config s))"

definition refreshToken_start :: "AuthService \<Rightarrow> promise \<Rightarrow> string option \<Rightarrow> refresh_start" where
  "refreshToken_start s fresh refreshToken =
     (case tokenRefreshPromise s of
        Some p \<Rightarrow> Joined p
      | None \<Rightarrow>
          (let tokenToUse =
                 (if truthy refreshToken then refreshToken
                  else Option.bind (credentials s) refresh_token)
           in if \<not> truthy tokenToUse
              then Threw (new_AuthenticationError ''No refresh token available'' None None None)
              else Issued fresh (refresh_request s (the tokenToUse))
                     (s\<lparr>tokenRefreshPromise := Some fresh\<rparr>)))"

definition refreshToken_settle ::
  "AuthService \<Rightarrow> TokenResponse outcome \<Rightarrow> int \<Rightarrow> (payfirma_error + AuthCredentials) \<times> AuthService" where
  "refreshToken_settle s result now =
     (case result of
        Resolved tokenData \<Rightarrow>
          (let creds = grantCredentials tokenData now
           in (Inr creds, s\<lparr>credentials := Some creds, tokenRefreshPromise := None\<rparr>))
      | Rejected error \<Rightarrow>
          (Inl (handleAuthError error), s\<lparr>tokenRefreshPromise := None\<rparr>))"

text \<open>
  \<^verbatim>\<open>getValidToken\<close>, in the same two parts: up to \<^verbatim>\<open>await this.refreshToken()\<close>, and from
  there on, where it reads \<^verbatim>\<open>this.credentials!.access_token\<close>.
\<close>

datatype token_start =
    Returned string
  | Failed thrown
  | Awaits refresh_start

definition getValidToken_start :: "AuthService \<Rightarrow> promise \<Rightarrow> int \<Rightarrow> token_start" where
  "getValidToken_start s fresh now =
     (let validation = validateToken s now
      in if \<not> valid validation then
           (if needs_refresh validation = Some True
            then Awaits (refreshToken_start s fresh None)
            else Failed (Payfirma (new_AuthenticationError
                   ''No valid token available and cannot refresh'' None None None)))
         else (case credentials s of
                 None \<Rightarrow> Failed TypeError
               | Some c \<Rightarrow> Returned (access_token c)))"

definition getValidToken_resume ::
  "AuthService \<Rightarrow> payfirma_error + AuthCredentials \<Rightarrow> thrown + string" where
  "getValidToken_resume s result =
     (case result of
        Inl e \<Rightarrow> Inl (Payfirma e)
      | Inr _ \<Rightarrow>
          (case credentials s of
             None \<Rightarrow> Inl TypeError
           | Some c \<Rightarrow> Inr (access_token c)))"

text \<open>
  One call of \<^verbatim>\<open>getValidToken\<close> run to its end: the refresh it awaits, its own or the one
  in flight, settles with \<open>result\<close> at the time \<open>later\<close>. The third component lists the
  network calls this call sent.
\<close>

definition getValidToken ::
  "AuthService \<Rightarrow> int \<Rightarrow> TokenResponse outcome \<Rightarrow> int \<Rightarrow> (thrown + string) \<times> AuthService \<times> http_call list" where
  "getValidToken s now result later =
     (case getValidToken_start s 0 now of
        Returned token \<Rightarrow> (Inr token, s, [])
      | Failed e \<Rightarrow> (Inl e, s, [])
      | Awaits (Joined p) \<Rightarrow>
          (let (r, s') = refreshToken_settle s result later
           in (getValidToken_resume s' r, s', []))
      | Awaits (Threw e) \<Rightarrow> (Inl (Payfirma e), s, [])
      | Awaits (Issued p call s1) \<Rightarrow>
          (let (r, s') = refreshToken_settle s1 result later
           in (getValidToken_resume s' r, s', [call])))"

text \<open>
  \<^verbatim>\<open>revokeToken\<close>, in two parts as well. Without credentials it returns at once. Otherwise
  it sends the DELETE with the stored access token and awaits it; when the DELETE has
  settled with \<open>result\<close>, the \<^verbatim>\<open>catch\<close> block ignores a failure and the \<^verbatim>\<open>finally\<close> block
  clears the credentials that the service holds at that moment.
\<close>

datatype revoke_start = NothingToRevoke | Sent http_call

definition revokeToken_start :: "AuthService \<Rightarrow> revoke_start" where
  "revokeToken_start s =
     (case credentials s of
        None \<Rightarrow> NothingToRevoke
      | Some c \<Rightarrow> Sent (DeleteRevokeToken (access_token c)))"

definition revokeToken_settle :: "AuthService \<Rightarrow> unit outcome \<Rightarrow> (thrown + unit) \<times> AuthService" where
  "revokeToken_settle s result =
     (let attempt = (case result of Resolved u \<Rightarrow> Inr u | Rejected error \<Rightarrow> Inl error);
          caught = (case attempt of Inl error \<Rightarrow> Inr () | Inr u \<Rightarrow> Inr u)
      in (caught, s\<lparr>credentials := None\<rparr>))"

text \<open>One call of \<^verbatim>\<open>revokeToken\<close> run to its end, with the network calls it sent.\<close>

definition revokeToken ::
  "AuthService \<Rightarrow> unit outcome \<Rightarrow> (thrown + unit) \<times> AuthService \<times> http_call list" where
  "revokeToken s result =
     (case revokeToken_start s of
        NothingToRevoke \<Rightarrow> (Inr (), s, [])
      | Sent call \<Rightarrow>
          (let (r, s') = revokeToken_settle s result in (r, s', [call])))"

section \<open>Overlapping requests on one service\<close>

text \<open>
  The program runs on one thread: a call runs without interruption up to its \<^verbatim>\<open>await\<close>,
  and the continuations of a settled promise run before the next response arrives. So a
  run of the system is a sequence of events: a caller invokes \<^verbatim>\<open>refreshToken\<close>, a caller
  invokes \<^verbatim>\<open>getValidToken\<close>, or the network call of a promise settles.

  The system holds the service, the number of promises created so far (each one is one
  refresh call sent), the calls in flight, the callers waiting for a promise, and the
  results delivered to callers.
\<close>

type_synonym caller = nat

datatype waiter = RefreshCaller | TokenCaller

datatype reply = Creds AuthCredentials | Token string

record system =
  service :: AuthService
  promises :: nat
  in_flight :: "(promise \<times> http_call) list"
  awaiting :: "(caller \<times> waiter \<times> promise) list"
  delivered :: "(caller \<times> (thrown + reply)) list"

datatype event =
    CallRefreshToken caller "string option"
  | CallGetValidToken caller int
  | Settle promise "TokenResponse outcome" int

text \<open>What a waiting caller receives when the promise it waits for settles with \<open>r\<close>.\<close>

definition deliver :: "AuthService \<Rightarrow> payfirma_error + AuthCredentials \<Rightarrow> waiter \<Rightarrow> thrown + reply" where
  "deliver s r w =
     (case w of
        RefreshCaller \<Rightarrow> (case r of Inl e \<Rightarrow> Inl (Payfirma e) | Inr c \<Rightarrow> Inr (Creds c))
      | TokenCaller \<Rightarrow> map_sum id Token (getValidToken_resume s r))"

definition enter :: "system \<Rightarrow> caller \<Rightarrow> waiter \<Rightarrow> refresh_start \<Rightarrow> system" where
  "enter w c k start =
     (case start of
        Joined p \<Rightarrow> w\<lparr>awaiting := awaiting w @ [(c, k, p)]\<rparr>
      | Threw e \<Rightarrow> w\<lparr>delivered := delivered w @ [(c, Inl (Payfirma e))]\<rparr>
      | Issued p call s' \<Rightarrow>
          w\<lparr>service := s', promises := Suc (promises w),
            in_flight := in_flight w @ [(p, call)],
            awaiting := awaiting w @ [(c, k, p)]\<rparr>)"

fun step :: "system \<Rightarrow> event \<Rightarrow> system" where
  "step w (CallRefreshToken c refreshToken) =
     enter w c RefreshCaller (refreshToken_start (service w) (promises w) refreshToken)"
| "step w (CallGetValidToken c now) =
     (case getValidToken_start (service w) (promises w) now of
        Returned token \<Rightarrow> w\<lparr>delivered := delivered w @ [(c, Inr (Token token))]\<rparr>
      | Failed e \<Rightarrow> w\<lparr>delivered := delivered w @ [(c, Inl e)]\<rparr>
      | Awaits start \<Rightarrow> enter w c TokenCaller start)"
| "step w (Settle p result now) =
     (if p \<in> set (map fst (in_flight w)) then
        (let (r, s') = refreshToken_settle (service w) result now
         in w\<lparr>service := s',
              in_flight := filter (\<lambda>(q, call). q \<noteq> p) (in_flight w),
              awaiting := filter (\<lambda>(c, k, q). q \<noteq> p) (awaiting w),
              delivered := delivered w @
                map (\<lambda>(c, k, q). (c, deliver s' r k))
                    (filter (\<lambda>(c, k, q). q = p) (awaiting w))\<rparr>)
      else w)"






section \<open>Construction of the SDK (PayfirmaSDK.ts)\<close>

text \<open>
  The constructor validates the configuration first and throws what \<^verbatim>\<open>validateConfig\<close>
  throws; after that it only builds objects and sends nothing. The resource services hold
  no state of their own and are left out of the record.
\<close>

record PayfirmaSDK =
  sdk_config :: PayfirmaSDKConfig
  environment :: Environment
  authService :: AuthService
  initialized :: bool

definition new_AuthService :: "PayfirmaSDKConfig \<Rightarrow> AuthService" where
  "new_AuthService cfg = \<lparr>config = cfg, credentials = None, tokenRefreshPromise = None\<rparr>"

definition new_PayfirmaSDK :: "PayfirmaSDKConfig \<Rightarrow> payfirma_error + PayfirmaSDK" where
  "new_PayfirmaSDK cfg =
     (case validateConfig cfg of
        Inl e \<Rightarrow> Inl e
      | Inr _ \<Rightarrow>
          Inr \<lparr>sdk_config = cfg,
               environment = getEnvironment cfg (case sandbox cfg of None \<Rightarrow> False | Some b \<Rightarrow> b),
               authService = new_AuthService cfg,
               initialized = False\<rparr>)"

text \<open>
  The configurations the specification calls invalid: client id or client secret empty or
  missing, or a timeout value outside 1000 ms to 300000 ms, that is, a timeout that is
  given and is not a number from 1000 to 300000.
\<close>

definition invalid_config_spec :: "PayfirmaSDKConfig \<Rightarrow> bool" where
  "invalid_config_spec cfg =
     (\<not> truthy (clientId cfg) \<or> \<not> truthy (clientSecret cfg) \<or>
      (case timeout cfg of
         None \<Rightarrow> False
       | Some (Finite x) \<Rightarrow> x < 1000 \<or> x > 300000
       | Some _ \<Rightarrow> True))"

section \<open>Sample inputs\<close>

text \<open>
  A configuration, stored credentials that expire at 1060000 ms, a service holding them,
  a system around the service, a token response and three overlapping requests. Two
  rejections of \<^verbatim>\<open>fetch\<close>: the abort by the timer and a failed connection. The client
  of the authentication service as \<^verbatim>\<open>createAuthClient\<close> builds it from the sample
  configuration: the default timeout 30000 and no transformation. Four thrown
  values as the handlers read them: the timeout error of a client with the timeout 30000,
  and three of the shape of an axios failure, which the handlers test for: a refused
  connection (no response, the request set), a 404 with the code \<^verbatim>\<open>CUSTOMER_NOT_FOUND\<close>
  and a 500 with a code the switch does not name.
\<close>

definition sample_config :: PayfirmaSDKConfig where
  "sample_config =
     \<lparr>clientId = Some ''id'', clientSecret = Some ''secret'', sandbox = Some True,
      timeout = None, apiUrls_auth = None, apiUrls_gateway = None\<rparr>"

definition sample_credentials :: AuthCredentials where
  "sample_credentials =
     \<lparr>access_token = ''old'', refresh_token = Some ''r1'', expires_at = 1060000,
      merchant_id = None, scope = None\<rparr>"

definition sample_service :: AuthService where
  "sample_service =
     \<lparr>config = sample_config, credentials = Some sample_credentials,
      tokenRefreshPromise = None\<rparr>"


definition sample_token :: TokenResponse where
  "sample_token =
     \<lparr>tr_access_token = ''new'', tr_expires_in = 3600, tr_refresh_token = Some ''r2'',
      tr_merchant_id = None, tr_scope = Some ''ecom invoice''\<rparr>"





definition sample_timeout :: axios_error where
  "sample_timeout =
     \<lparr>response = None, request = False, axios_code = None,
      axios_message = ''Request timeout after 30000ms''\<rparr>"

definition sample_refused :: axios_error where
  "sample_refused =
     \<lparr>response = None, request = True, axios_code = Some ''ECONNREFUSED'',
      axios_message = ''connect ECONNREFUSED''\<rparr>"

definition sample_not_found :: axios_error where
  "sample_not_found =
     \<lparr>response = Some \<lparr>status = 404,
                        data = Some \<lparr>body_error = Some ''CUSTOMER_NOT_FOUND'',
                                     body_message = Some ''x'',
                                     body_error_description = None\<rparr>,
                        headers = []\<rparr>,
      request = True, axios_code = Some ''ERR_BAD_REQUEST'',
      axios_message = ''Request failed with status code 404''\<rparr>"

definition sample_weird :: axios_error where
  "sample_weird =
     \<lparr>response = Some \<lparr>status = 500,
                        data = Some \<lparr>body_error = Some ''WEIRD_CODE'',
                                     body_message = None,
                                     body_error_description = None\<rparr>,
                        headers = []\<rparr>,
      request = True, axios_code = Some ''ERR_BAD_RESPONSE'',
      axios_message = ''Request failed with status code 500''\<rparr>"


section \<open>Properties of the key-case transformer\<close>

lemma upt_two: "[n..<n + Suc (Suc k)] = n # Suc n # [n + 2..<n + 2 + k]"
  by (simp add: upt_conv_Cons)

lemma upt_one: "[n..<n + Suc k] = n # [Suc n..<Suc n + k]"
  by (simp add: upt_conv_Cons)

lemma is_lower_not_underscore: "is_lower c \<Longrightarrow> c \<noteq> CHR ''_''"
  by (auto simp: is_lower_def)

text \<open>
  The scan of \<open>snakeToCamel\<close> over a suffix \<open>s\<close> of a string \<open>p @ s\<close> produces the
  position-wise rewriting of the positions of \<open>s\<close>, provided the scan does not start in
  the middle of a match.
\<close>

lemma rule_suffix:
  "p = [] \<or> \<not> underscore_pair is_lower (p @ s) (length p - 1) \<Longrightarrow>
   concat (map (rewrite_at is_lower (p @ s)) [length p..<length p + length s]) = snakeToCamel s"
proof (induction s arbitrary: p rule: snakeToCamel.induct)
  case 1
  then show ?case by simp
next
  case (2 c p)
  then show ?case
    by (auto simp: rewrite_at_def underscore_pair_def nth_append)
next
  case (3 c d s p)
  let ?n = "length p"
  let ?w = "p @ c # d # s"
  have split: "[?n..<?n + length (c # d # s)] = ?n # Suc ?n # [?n + 2..<?n + 2 + length s]"
    using upt_two[of ?n "length s"] by simp
  show ?case
  proof (cases "c = CHR ''_'' \<and> is_lower d")
    case True
    have a: "rewrite_at is_lower ?w ?n = []"
      using True by (simp add: rewrite_at_def underscore_pair_def nth_append)
    have b: "rewrite_at is_lower ?w (Suc ?n) = [toUpperCase d]"
      using True is_lower_not_underscore[of d]
      by (simp add: rewrite_at_def underscore_pair_def nth_append)
    have np: "\<not> underscore_pair is_lower ((p @ [c, d]) @ s) (length (p @ [c, d]) - 1)"
      using True is_lower_not_underscore[of d]
      by (simp add: underscore_pair_def nth_append)
    have "concat (map (rewrite_at is_lower ((p @ [c, d]) @ s))
            [length (p @ [c, d])..<length (p @ [c, d]) + length s]) = snakeToCamel s"
      using "3.IH"(1)[OF True, of "p @ [c, d]"] np by blast
    then have c: "concat (map (rewrite_at is_lower ?w) [?n + 2..<?n + 2 + length s]) = snakeToCamel s"
      by simp
    have "concat (map (rewrite_at is_lower ?w) [?n..<?n + length (c # d # s)]) =
          rewrite_at is_lower ?w ?n @ rewrite_at is_lower ?w (Suc ?n) @
          concat (map (rewrite_at is_lower ?w) [?n + 2..<?n + 2 + length s])"
      by (simp only: split list.map concat.simps)
    also have "\<dots> = toUpperCase d # snakeToCamel s"
      by (simp only: a b c append.simps)
    also have "\<dots> = snakeToCamel (c # d # s)"
      using True by simp
    finally show ?thesis .
  next
    case False
    have a: "rewrite_at is_lower ?w ?n = [c]"
      using False "3.prems"
      by (auto simp: rewrite_at_def underscore_pair_def nth_append)
    have np: "\<not> underscore_pair is_lower ((p @ [c]) @ d # s) (length (p @ [c]) - 1)"
      using False by (auto simp: underscore_pair_def nth_append)
    have "concat (map (rewrite_at is_lower ((p @ [c]) @ d # s))
            [length (p @ [c])..<length (p @ [c]) + length (d # s)]) = snakeToCamel (d # s)"
      using "3.IH"(2)[OF False, of "p @ [c]"] np by blast
    then have c: "concat (map (rewrite_at is_lower ?w) [Suc ?n..<Suc ?n + length (d # s)]) =
                  snakeToCamel (d # s)"
      by simp
    have split2: "[?n..<?n + length (c # d # s)] = ?n # [Suc ?n..<Suc ?n + length (d # s)]"
      using upt_one[of ?n "length (d # s)"] by simp
    have "concat (map (rewrite_at is_lower ?w) [?n..<?n + length (c # d # s)]) =
          rewrite_at is_lower ?w ?n @
          concat (map (rewrite_at is_lower ?w) [Suc ?n..<Suc ?n + length (d # s)])"
      by (simp only: split2 list.map concat.simps)
    also have "\<dots> = c # snakeToCamel (d # s)"
      by (simp only: a c append.simps)
    also have "\<dots> = snakeToCamel (c # d # s)"
      using False by auto
    finally show ?thesis .
  qed
qed

lemma snakeToCamel_first_name: "snakeToCamel ''first_name'' = ''firstName''"
  by code_simp

text \<open>
  C7, as the claim states it, fails. The claim applies the rule to every underscore
  followed by a letter, whatever the case of the letter. On \<^verbatim>\<open>first_Name\<close> the rule
  of the claim removes the underscore and gives \<^verbatim>\<open>firstName\<close>; the source, whose
  pattern is \<^verbatim>\<open>_([a-z])\<close>, leaves the string as it is.
\<close>

theorem snakeToCamel_upper_case_counterexample:
  "snakeToCamel ''first_Name'' = ''first_Name'' \<and>
   snakeToCamel_spec ''first_Name'' = ''firstName'' \<and>
   snakeToCamel ''first_Name'' \<noteq> snakeToCamel_spec ''first_Name''"
  by (simp add: snakeToCamel_spec_def snakeToCamel_rule_def rewrite_at_def underscore_pair_def
        is_letter_def is_upper_def is_lower_def toUpperCase_def upt_conv_Cons)

text \<open>
  C7, amended: for every string \<open>s\<close>, \<open>snakeToCamel s\<close> is the string obtained by
  removing each underscore that is followed by a lower-case letter a-z and upper-casing
  that letter; every other character, an underscore before an upper-case letter
  included, stays.
\<close>

theorem snakeToCamel_lower_case_rule:
  "snakeToCamel s = snakeToCamel_rule is_lower s"
  using rule_suffix[of "[]" s] by (simp add: snakeToCamel_rule_def)

theorem snakeToCamel_lower_case_rule_witness:
  "snakeToCamel_rule is_lower ''first_name'' = ''firstName''"
  using snakeToCamel_lower_case_rule[of "''first_name''"] snakeToCamel_first_name by simp

subsection \<open>Assignments into the object under construction\<close>

lemma assign_keys:
  "map fst (assign obj k v) =
     (if k \<in> set (map fst obj) then map fst obj else map fst obj @ [k])"
  by (induction obj k v rule: assign.induct) auto

lemma assign_fresh: "k \<notin> set (map fst obj) \<Longrightarrow> assign obj k v = obj @ [(k, v)]"
  by (induction obj k v rule: assign.induct) auto

lemma assign_set: "set (assign obj k v) \<subseteq> insert (k, v) (set obj)"
  by (induction obj k v rule: assign.induct) auto

lemma assign_distinct: "distinct (map fst obj) \<Longrightarrow> distinct (map fst (assign obj k v))"
  by (simp add: assign_keys)

text \<open>
  When no written key is \<^verbatim>\<open>__proto__\<close>, the loop is a sequence of ordinary assignments and
  the setter stays in reach.
\<close>

lemma foldl_set_property_ordinary:
  assumes "\<forall>(k, v)\<in>set kvs. f k \<noteq> ''__proto__''"
  shows "foldl (\<lambda>a (k, v). set_property a (f k) (g v)) (acc, b) kvs =
         (foldl (\<lambda>a (k, v). assign a (f k) (fst (g v))) acc kvs, b)"
  using assms
proof (induction kvs arbitrary: acc)
  case Nil
  then show ?case by simp
next
  case (Cons kv kvs)
  obtain k v where kv: "kv = (k, v)" by (cases kv)
  have "set_property (acc, b) (f k) (g v) = (assign acc (f k) (fst (g v)), b)"
    using Cons.prems kv by (simp add: set_property_def)
  then show ?case
    using Cons kv by simp
qed

text \<open>
  A sequence of ordinary assignments keeps the keys of the object under construction
  distinct, and keeps any property \<open>P\<close> of entries that every written entry has.
\<close>

lemma foldl_assign_inv:
  assumes "distinct (map fst acc)" and "\<forall>e\<in>set acc. P e"
    and "\<forall>(k, v)\<in>set kvs. P (f k, g v)"
  shows "distinct (map fst (foldl (\<lambda>a (k, v). assign a (f k) (g v)) acc kvs)) \<and>
         (\<forall>e\<in>set (foldl (\<lambda>a (k, v). assign a (f k) (g v)) acc kvs). P e)"
  using assms
proof (induction kvs arbitrary: acc)
  case Nil
  then show ?case by simp
next
  case (Cons kv kvs)
  obtain k v where kv: "kv = (k, v)" by (cases kv)
  let ?acc = "assign acc (f k) (g v)"
  have d: "distinct (map fst ?acc)"
    using Cons.prems(1) by (rule assign_distinct)
  have p: "\<forall>e\<in>set ?acc. P e"
    using Cons.prems(2,3) assign_set[of acc "f k" "g v"] kv by auto
  have r: "\<forall>(k, v)\<in>set kvs. P (f k, g v)"
    using Cons.prems(3) by simp
  show ?case
    using Cons.IH[OF d p r] kv by simp
qed

text \<open>When the written keys are new and pairwise different, the entries are appended.\<close>

lemma foldl_assign_map:
  assumes "distinct (map fst acc @ map (\<lambda>(k, v). f k) kvs)"
  shows "foldl (\<lambda>a (k, v). assign a (f k) (g v)) acc kvs =
         acc @ map (\<lambda>(k, v). (f k, g v)) kvs"
  using assms
proof (induction kvs arbitrary: acc)
  case Nil
  then show ?case by simp
next
  case (Cons kv kvs)
  obtain k v where kv: "kv = (k, v)" by (cases kv)
  have fresh: "f k \<notin> set (map fst acc)"
    using Cons.prems kv by auto
  have step: "assign acc (f k) (g v) = acc @ [(f k, g v)]"
    using fresh by (rule assign_fresh)
  have d: "distinct (map fst (acc @ [(f k, g v)]) @ map (\<lambda>(k, v). f k) kvs)"
    using Cons.prems kv by auto
  show ?case
    using Cons.IH[OF d] kv step by simp
qed

subsection \<open>The two string rules\<close>

lemma toLowerCase_not_upper: "\<not> is_upper (toLowerCase c)"
  by (auto simp: toLowerCase_def is_upper_def)

lemma toUpperCase_toLowerCase: "is_upper c \<Longrightarrow> toUpperCase (toLowerCase c) = c"
  by (auto simp: toLowerCase_def toUpperCase_def is_upper_def is_lower_def)

lemma toLowerCase_is_lower: "is_upper c \<Longrightarrow> is_lower (toLowerCase c)"
  by (auto simp: toLowerCase_def is_upper_def is_lower_def)

lemma underscore_not_upper: "\<not> is_upper (CHR ''_'')"
  by (simp add: is_upper_def)

lemma underscore_not_letter: "\<not> is_letter (CHR ''_'')"
  by (simp add: is_letter_def is_upper_def is_lower_def)

lemma letters_only_no_underscore: "letters_only k \<Longrightarrow> no_underscore k"
  using underscore_not_letter by (auto simp: letters_only_def no_underscore_def list_all_iff)

lemma camelToSnake_no_upper: "no_upper (camelToSnake s)"
  by (induction s) (auto simp: no_upper_def toLowerCase_not_upper underscore_not_upper)

lemma camelToSnake_id: "no_upper s \<Longrightarrow> camelToSnake s = s"
  by (induction s) (auto simp: no_upper_def)

lemma snakeToCamel_Cons: "c \<noteq> CHR ''_'' \<Longrightarrow> snakeToCamel (c # s) = c # snakeToCamel s"
  by (cases s) auto

lemma snakeToCamel_camelToSnake:
  "no_underscore s \<Longrightarrow> snakeToCamel (camelToSnake s) = s"
  by (induction s)
     (auto simp: no_underscore_def snakeToCamel_Cons toUpperCase_toLowerCase toLowerCase_is_lower)

lemma snakeToCamel_proto: "snakeToCamel ''__proto__'' = ''_Proto__''"
  by code_simp

lemma camelToSnake_not_proto:
  assumes "no_underscore s"
  shows "camelToSnake s \<noteq> ''__proto__''"
proof
  assume "camelToSnake s = ''__proto__''"
  then have "snakeToCamel (camelToSnake s) = ''_Proto__''"
    by (simp only: snakeToCamel_proto)
  moreover have "snakeToCamel (camelToSnake s) = s"
    using assms by (rule snakeToCamel_camelToSnake)
  ultimately have "s = ''_Proto__''" by simp
  then show False using assms by (simp add: no_underscore_def)
qed

text \<open>The keys that \<open>camelToSnake\<close> turns into \<^verbatim>\<open>__proto__\<close> are \<^verbatim>\<open>__proto__\<close> and \<^verbatim>\<open>_Proto__\<close>.\<close>

lemma camelToSnake_eq_Nil: "camelToSnake k = [] \<longleftrightarrow> k = []"
  by (cases k) auto

lemma camelToSnake_eq_Cons:
  assumes "camelToSnake k = c # t"
  shows "(\<exists>k'. k = c # k' \<and> \<not> is_upper c \<and> camelToSnake k' = t) \<or>
         (\<exists>u k'. k = u # k' \<and> is_upper u \<and> c = CHR ''_'' \<and> t = toLowerCase u # camelToSnake k')"
  using assms by (cases k) (auto split: if_splits)

lemma toUpperCase_p: "toUpperCase CHR ''p'' = CHR ''P''"
  by code_simp

lemma lower_p: "is_upper u \<Longrightarrow> toLowerCase u = CHR ''p'' \<Longrightarrow> u = CHR ''P''"
  using toUpperCase_toLowerCase[of u] by (simp add: toUpperCase_p)

lemma lower_not_underscore:
  "is_upper u \<Longrightarrow> toLowerCase u \<noteq> CHR ''_''"
  "is_upper u \<Longrightarrow> CHR ''_'' \<noteq> toLowerCase u"
  using toLowerCase_is_lower[of u] is_lower_not_underscore[of "toLowerCase u"] by auto

lemma proto_not_upper:
  "\<not> is_upper CHR ''_''" "\<not> is_upper CHR ''p''" "\<not> is_upper CHR ''r''"
  "\<not> is_upper CHR ''o''" "\<not> is_upper CHR ''t''"
  by (simp_all add: is_upper_def)

lemma ordinary_key_iff: "ordinary_key k \<longleftrightarrow> k \<noteq> ''__proto__'' \<and> k \<noteq> ''_Proto__''"
proof -
  have img: "camelToSnake ''__proto__'' = ''__proto__''" "camelToSnake ''_Proto__'' = ''__proto__''"
    by code_simp+
  have "k = ''__proto__'' \<or> k = ''_Proto__''" if h: "camelToSnake k = ''__proto__''"
  proof -
    have tail: "k' = ''roto__''" if "camelToSnake k' = ''roto__''" for k'
      using that
      by (auto dest!: camelToSnake_eq_Cons simp: camelToSnake_eq_Nil lower_not_underscore proto_not_upper)
    from camelToSnake_eq_Cons[OF h] obtain k1 where k1: "k = CHR ''_'' # k1" "camelToSnake k1 = ''_proto__''"
      by (auto simp: lower_not_underscore)
    from camelToSnake_eq_Cons[OF k1(2)]
    consider (lit) k2 where "k1 = CHR ''_'' # k2" "camelToSnake k2 = ''proto__''"
      | (up) u k2 where "k1 = u # k2" "is_upper u" "toLowerCase u = CHR ''p''" "camelToSnake k2 = ''roto__''"
      by auto
    then show ?thesis
    proof cases
      case lit
      from camelToSnake_eq_Cons[OF lit(2)] obtain k3 where "k2 = CHR ''p'' # k3" "camelToSnake k3 = ''roto__''"
        by (auto simp: proto_not_upper)
      then show ?thesis using k1 lit tail by auto
    next
      case up
      then show ?thesis using k1 tail lower_p by auto
    qed
  qed
  then show ?thesis
    using img by (auto simp: ordinary_key_def)
qed

subsection \<open>The recursive transformation\<close>

lemma all_keys_mono: "(\<And>k. P k \<Longrightarrow> Q k) \<Longrightarrow> all_keys P x \<Longrightarrow> all_keys Q x"
  by (induction x) (auto simp: list_all_iff)

text \<open>
  On a value whose keys are all ordinary, the result has each key once, no upper-case
  letter in a key and no key \<^verbatim>\<open>__proto__\<close>, and its object still has the setter in reach.
\<close>

lemma transformKeysToSnake_js_snake:
  "all_keys ordinary_key x \<Longrightarrow>
   snd (transformKeysToSnake_js x) \<and> distinct_keys (fst (transformKeysToSnake_js x)) \<and>
   all_keys snake_key (fst (transformKeysToSnake_js x))"
proof (induction x)
  case (JArr xs)
  then show ?case by (simp add: list_all_iff)
next
  case (JObj kvs)
  let ?g = "\<lambda>v. fst (transformKeysToSnake_js v)"
  let ?P = "\<lambda>e. case e of (k, v) \<Rightarrow> snake_key k \<and> distinct_keys v \<and> all_keys snake_key v"
  have ord: "\<forall>(k, v)\<in>set kvs. camelToSnake k \<noteq> ''__proto__''"
    using JObj.prems by (auto simp: list_all_iff ordinary_key_def)
  have loop: "foldl (\<lambda>a (k, v). set_property a (camelToSnake k) (transformKeysToSnake_js v))
                ([], True) kvs =
              (foldl (\<lambda>a (k, v). assign a (camelToSnake k) (?g v)) [] kvs, True)"
    using foldl_set_property_ordinary[OF ord, of transformKeysToSnake_js "[]" True] by simp
  have "\<forall>(k, v)\<in>set kvs. ?P (camelToSnake k, ?g v)"
    using JObj.IH JObj.prems ord
    by (fastforce simp: snake_key_def camelToSnake_no_upper list_all_iff)
  from foldl_assign_inv[where acc = "[]" and P = ?P and f = camelToSnake and g = ?g
        and kvs = kvs, OF _ _ this]
  show ?case by (auto simp: loop list_all_iff)
qed simp_all

lemma transformKeysToSnake_js_id:
  "distinct_keys y \<Longrightarrow> all_keys snake_key y \<Longrightarrow> transformKeysToSnake_js y = (y, True)"
proof (induction y)
  case (JArr xs)
  then show ?case by (auto simp: list_all_iff intro: map_idI)
next
  case (JObj kvs)
  let ?g = "\<lambda>v. fst (transformKeysToSnake_js v)"
  have keys: "\<forall>(k, v)\<in>set kvs. camelToSnake k = k \<and> k \<noteq> ''__proto__''"
    using JObj.prems(2) by (auto simp: list_all_iff snake_key_def camelToSnake_id)
  have vals: "\<forall>(k, v)\<in>set kvs. ?g v = v"
    using JObj.IH JObj.prems by (fastforce simp: list_all_iff)
  have ord: "\<forall>(k, v)\<in>set kvs. camelToSnake k \<noteq> ''__proto__''"
    using keys by auto
  have loop: "foldl (\<lambda>a (k, v). set_property a (camelToSnake k) (transformKeysToSnake_js v))
                ([], True) kvs =
              (foldl (\<lambda>a (k, v). assign a (camelToSnake k) (?g v)) [] kvs, True)"
    using foldl_set_property_ordinary[OF ord, of transformKeysToSnake_js "[]" True] by simp
  have m: "map (\<lambda>(k, v). camelToSnake k) kvs = map fst kvs"
    using keys by (intro map_cong) auto
  have d: "distinct (map fst [] @ map (\<lambda>(k, v). camelToSnake k) kvs)"
    unfolding m using JObj.prems(1) by simp
  have "map (\<lambda>(k, v). (camelToSnake k, ?g v)) kvs = kvs"
    using keys vals by (intro map_idI) auto
  then show ?case
    using foldl_assign_map[OF d, of ?g] by (simp add: loop)
qed simp_all

lemma roundtrip_no_underscore:
  "distinct_keys x \<Longrightarrow> all_keys no_underscore x \<Longrightarrow>
   transformKeysToCamel (transformKeysToSnake x) = x"
proof (induction x)
  case (JArr xs)
  then show ?case
    by (auto simp: transformKeysToCamel_def transformKeysToSnake_def list_all_iff intro: map_idI)
next
  case (JObj kvs)
  let ?g = "\<lambda>v. fst (transformKeysToSnake_js v)"
  let ?h = "\<lambda>v. fst (transformKeysToCamel_js v)"
  have nu: "\<forall>(k, v)\<in>set kvs. no_underscore k"
    using JObj.prems(2) by (auto simp: list_all_iff)
  have vals: "\<forall>(k, v)\<in>set kvs. ?h (?g v) = v"
    using JObj.IH JObj.prems
    by (fastforce simp: list_all_iff transformKeysToCamel_def transformKeysToSnake_def)
  have inj: "inj_on camelToSnake (set (map fst kvs))"
  proof (rule inj_on_inverseI[where g = snakeToCamel])
    fix k assume "k \<in> set (map fst kvs)"
    then show "snakeToCamel (camelToSnake k) = k"
      using nu by (auto simp: snakeToCamel_camelToSnake)
  qed
  have e: "map (\<lambda>(k, v). camelToSnake k) kvs = map camelToSnake (map fst kvs)"
    by (simp add: case_prod_beta comp_def)
  have "distinct (map camelToSnake (map fst kvs))"
    by (rule iffD2[OF distinct_map]) (use JObj.prems(1) inj in simp)
  then have d1: "distinct (map fst [] @ map (\<lambda>(k, v). camelToSnake k) kvs)"
    unfolding e by simp
  have p1: "\<forall>(k, v)\<in>set kvs. camelToSnake k \<noteq> ''__proto__''"
    using nu by (auto simp: camelToSnake_not_proto)
  let ?kvs' = "map (\<lambda>(k, v). (camelToSnake k, ?g v)) kvs"
  have s1: "transformKeysToSnake (JObj kvs) = JObj ?kvs'"
    using foldl_set_property_ordinary[OF p1, of transformKeysToSnake_js "[]" True]
      foldl_assign_map[OF d1, of ?g]
    by (simp add: transformKeysToSnake_def)
  have bk: "map (\<lambda>(k, v). snakeToCamel k) ?kvs' = map fst kvs"
    using nu by (auto simp: snakeToCamel_camelToSnake case_prod_beta comp_def intro!: map_cong)
  have d2: "distinct (map fst [] @ map (\<lambda>(k, v). snakeToCamel k) ?kvs')"
    unfolding bk using JObj.prems(1) by simp
  have p2: "\<forall>(k, v)\<in>set ?kvs'. snakeToCamel k \<noteq> ''__proto__''"
    using nu by (auto simp: snakeToCamel_camelToSnake no_underscore_def)
  have "map (\<lambda>(k, v). (snakeToCamel k, ?h v)) ?kvs' = kvs"
    using nu vals
    by (auto simp: snakeToCamel_camelToSnake case_prod_beta comp_def intro!: map_idI)
  then have "transformKeysToCamel (JObj ?kvs') = JObj kvs"
    using foldl_set_property_ordinary[OF p2, of transformKeysToCamel_js "[]" True]
      foldl_assign_map[OF d2, of ?h]
    by (simp add: transformKeysToCamel_def)
  then show ?case using s1 by simp
qed (simp_all add: transformKeysToCamel_def transformKeysToSnake_def)

text \<open>
  On a value none of whose keys is turned into \<^verbatim>\<open>__proto__\<close>, every assignment of the
  loop creates or overwrites an entry, one application leaves no upper-case letter in any
  key, and a second application changes nothing.
\<close>

lemma transformKeysToSnake_idempotent_ordinary:
  assumes "all_keys ordinary_key x"
  shows "transformKeysToSnake (transformKeysToSnake x) = transformKeysToSnake x"
proof -
  have snake: "distinct_keys (transformKeysToSnake x)" "all_keys snake_key (transformKeysToSnake x)"
    using transformKeysToSnake_js_snake[OF assms] by (simp_all add: transformKeysToSnake_def)
  show ?thesis
    using transformKeysToSnake_js_id[OF snake] by (simp add: transformKeysToSnake_def)
qed

text \<open>
  C10: \<open>transformKeysToSnake\<close> applied twice should give what one application gives, for
  every JSON-like value. The code fails this on the object with the entries
  \<^verbatim>\<open>__proto__: null\<close> and \<^verbatim>\<open>_Proto__: 5\<close>, as \<^verbatim>\<open>JSON.parse\<close> builds it. The loop writes each
  entry with \<^verbatim>\<open>transformed[snakeKey] = ...\<close> into a fresh object and does not guard the key
  \<^verbatim>\<open>__proto__\<close>. In the first application the assignment of \<^verbatim>\<open>null\<close> to \<^verbatim>\<open>__proto__\<close> runs
  the inherited setter and removes the prototype of the new object; the second key becomes
  \<^verbatim>\<open>__proto__\<close> as well and is now stored as an entry. In the second application that entry
  meets the setter of a fresh object, which ignores the number 5: the result has no entry,
  although \<open>camelToSnake\<close> leaves the key \<^verbatim>\<open>__proto__\<close> as it is. So the second application
  changes the value, and an entry of the input is lost.
\<close>

theorem transformKeysToSnake_not_idempotent:
  "transformKeysToSnake (JObj [(''__proto__'', JNull), (''_Proto__'', JNum 5)]) =
     JObj [(''__proto__'', JNum 5)] \<and>
   camelToSnake ''__proto__'' = ''__proto__'' \<and>
   transformKeysToSnake (JObj [(''__proto__'', JNum 5)]) = JObj [] \<and>
   transformKeysToSnake (transformKeysToSnake
     (JObj [(''__proto__'', JNull), (''_Proto__'', JNum 5)])) = JObj [] \<and>
   transformKeysToSnake (transformKeysToSnake
     (JObj [(''__proto__'', JNull), (''_Proto__'', JNum 5)])) \<noteq>
   transformKeysToSnake (JObj [(''__proto__'', JNull), (''_Proto__'', JNum 5)])"
proof -
  let ?x = "JObj [(''__proto__'', JNull), (''_Proto__'', JNum 5)]"
  have a: "transformKeysToSnake ?x = JObj [(''__proto__'', JNum 5)]"
    by code_simp
  have b: "transformKeysToSnake (JObj [(''__proto__'', JNum 5)]) = JObj []"
    by code_simp
  have c: "camelToSnake ''__proto__'' = ''__proto__''"
    by code_simp
  show ?thesis
    by (simp only: a b c) simp
qed

text \<open>
  C6: round trip of the key-case transformation. For every JSON-like value (each key once
  in its object, as in every value of the program) all of whose keys, at every depth,
  consist of letters only, converting the keys to snake case and back gives the value
  again. What the proof needs of the keys is that they hold no underscore, so the round
  trip also holds for keys with letters outside ASCII or with digits. It is not claimed
  for other keys, and it fails for a key with an underscore: \<^verbatim>\<open>a_b\<close> comes back as
  \<^verbatim>\<open>aB\<close>.
\<close>

theorem transformKeys_roundtrip_letters:
  "(distinct_keys x \<and> all_keys letters_only x \<longrightarrow>
      transformKeysToCamel (transformKeysToSnake x) = x) \<and>
   (distinct_keys x \<and> all_keys no_underscore x \<longrightarrow>
      transformKeysToCamel (transformKeysToSnake x) = x) \<and>
   transformKeysToCamel (transformKeysToSnake (JObj [(''a_b'', JNull)])) = JObj [(''aB'', JNull)]"
proof -
  have general: "transformKeysToCamel (transformKeysToSnake x) = x"
    if "distinct_keys x" "all_keys no_underscore x"
    using that by (rule roundtrip_no_underscore)
  have "all_keys no_underscore x" if "all_keys letters_only x"
    using that by (rule all_keys_mono[rotated]) (rule letters_only_no_underscore)
  moreover have "transformKeysToCamel (transformKeysToSnake (JObj [(''a_b'', JNull)])) =
                 JObj [(''aB'', JNull)]"
    by code_simp
  ultimately show ?thesis
    using general by blast
qed

theorem transformKeys_roundtrip_letters_witness:
  "distinct_keys (JObj [(''firstName'', JArr [JObj [(''zipCode'', JStr ''a_b'')]]), (''ABC'', JNull)]) \<and>
   all_keys letters_only (JObj [(''firstName'', JArr [JObj [(''zipCode'', JStr ''a_b'')]]), (''ABC'', JNull)]) \<and>
   transformKeysToSnake (JObj [(''firstName'', JArr [JObj [(''zipCode'', JStr ''a_b'')]]), (''ABC'', JNull)]) =
     JObj [(''first_name'', JArr [JObj [(''zip_code'', JStr ''a_b'')]]), (''_a_b_c'', JNull)] \<and>
   transformKeysToCamel (transformKeysToSnake
     (JObj [(''firstName'', JArr [JObj [(''zipCode'', JStr ''a_b'')]]), (''ABC'', JNull)])) =
     JObj [(''firstName'', JArr [JObj [(''zipCode'', JStr ''a_b'')]]), (''ABC'', JNull)]"
proof -
  let ?x = "JObj [(''firstName'', JArr [JObj [(''zipCode'', JStr ''a_b'')]]), (''ABC'', JNull)]"
  have h: "distinct_keys ?x" "all_keys letters_only ?x"
    by code_simp+
  have s: "transformKeysToSnake ?x =
           JObj [(''first_name'', JArr [JObj [(''zip_code'', JStr ''a_b'')]]), (''_a_b_c'', JNull)]"
    by code_simp
  have r: "transformKeysToCamel (transformKeysToSnake ?x) = ?x"
    using transformKeys_roundtrip_letters[of ?x] h by blast
  show ?thesis
    by (intro conjI) (rule h s r)+
qed

section \<open>Single-flight refresh\<close>

subsection \<open>The invariant\<close>








subsection \<open>Single steps\<close>















subsection \<open>Overlapping callers\<close>





section \<open>Token validation, token access and revocation\<close>

text \<open>
  C2: \<open>validateToken\<close> is a function of the stored credentials and the clock alone: it
  sends nothing, changes nothing and always returns a value. Without credentials the
  result is invalid with a reason. With credentials that expire more than five minutes
  (300000 ms) after \<open>now\<close> it is \<open>valid\<close> with the expiry time; this is the case for
  credentials issued with \<^verbatim>\<open>expires_in = 3600\<close>, by either way of building them, from the
  moment they are issued until 55 minutes later. With
  credentials that expire within five minutes or have expired, such as
  \<open>expires_at = now + 60000\<close>, it is invalid, and \<open>needs_refresh\<close> says whether a refresh
  token is present. Present means truthy, as \<^verbatim>\<open>!!refresh_token\<close> reads it: a non-empty
  string.
\<close>

theorem validateToken_cases:
  "(credentials s = None \<longrightarrow>
      validateToken s now =
        \<lparr>valid = False, tv_expires_at = None,
         reason = Some ''No credentials available'', needs_refresh = None\<rparr>) \<and>
   (credentials s = Some c \<and> expires_at c - now > 300000 \<longrightarrow>
      validateToken s now =
        \<lparr>valid = True, tv_expires_at = Some (expires_at c), reason = None, needs_refresh = None\<rparr>) \<and>
   (credentials s = Some c \<and> expires_at c - now \<le> 300000 \<longrightarrow>
      validateToken s now =
        \<lparr>valid = False, tv_expires_at = Some (expires_at c),
         reason = Some ''Token expired or expiring soon'',
         needs_refresh = Some (truthy (refresh_token c))\<rparr> \<and>
      (refresh_token c = None \<longrightarrow> needs_refresh (validateToken s now) = Some False) \<and>
      (refresh_token c = Some t \<and> t \<noteq> [] \<longrightarrow> needs_refresh (validateToken s now) = Some True)) \<and>
   (tr_expires_in td = 3600 \<and> issued \<le> now \<and> now < issued + 3300000 \<and>
    (credentials s = Some (grantCredentials td issued) \<or>
     credentials s = Some (clientCredentials td issued)) \<longrightarrow>
      valid (validateToken s now)) \<and>
   (credentials s = Some c \<and> expires_at c = now + 60000 \<longrightarrow>
      \<not> valid (validateToken s now) \<and>
      needs_refresh (validateToken s now) = Some (truthy (refresh_token c)))"
  by (auto simp: validateToken_def Let_def truthy_def grantCredentials_def clientCredentials_def)

theorem validateToken_cases_witness:
  "validateToken (new_AuthService sample_config) 1000000 =
     \<lparr>valid = False, tv_expires_at = None,
      reason = Some ''No credentials available'', needs_refresh = None\<rparr> \<and>
   validateToken sample_service 1000000 =
     \<lparr>valid = False, tv_expires_at = Some 1060000,
      reason = Some ''Token expired or expiring soon'', needs_refresh = Some True\<rparr> \<and>
   validateToken sample_service 700000 =
     \<lparr>valid = True, tv_expires_at = Some 1060000, reason = None, needs_refresh = None\<rparr> \<and>
   valid (validateToken
     (sample_service\<lparr>credentials := Some (grantCredentials sample_token 1000000)\<rparr>) 1000000)"
proof -
  have a: "credentials (new_AuthService sample_config) = None"
    by (simp add: new_AuthService_def)
  have b: "credentials sample_service = Some sample_credentials"
    "expires_at sample_credentials - 1000000 \<le> 300000"
    "expires_at sample_credentials - 700000 > 300000"
    "expires_at sample_credentials = 1060000"
    "truthy (refresh_token sample_credentials)"
    by (simp_all add: sample_service_def sample_credentials_def truthy_def)
  have c: "tr_expires_in sample_token = 3600" "(1000000::int) \<le> 1000000"
    "(1000000::int) < 1000000 + 3300000"
    "credentials (sample_service\<lparr>credentials := Some (grantCredentials sample_token 1000000)\<rparr>) =
       Some (grantCredentials sample_token 1000000)"
    by (simp_all add: sample_token_def)
  have "validateToken (new_AuthService sample_config) 1000000 =
     \<lparr>valid = False, tv_expires_at = None,
      reason = Some ''No credentials available'', needs_refresh = None\<rparr>"
    using validateToken_cases[of "new_AuthService sample_config" 1000000] a by blast
  moreover have "validateToken sample_service 1000000 =
     \<lparr>valid = False, tv_expires_at = Some 1060000,
      reason = Some ''Token expired or expiring soon'', needs_refresh = Some True\<rparr>"
    using validateToken_cases[of sample_service 1000000 sample_credentials] b by simp
  moreover have "validateToken sample_service 700000 =
     \<lparr>valid = True, tv_expires_at = Some 1060000, reason = None, needs_refresh = None\<rparr>"
    using validateToken_cases[of sample_service 700000 sample_credentials] b by simp
  moreover have "valid (validateToken
     (sample_service\<lparr>credentials := Some (grantCredentials sample_token 1000000)\<rparr>) 1000000)"
    using validateToken_cases[where
        s = "sample_service\<lparr>credentials := Some (grantCredentials sample_token 1000000)\<rparr>"
        and now = 1000000 and td = sample_token and issued = 1000000] c by blast
  ultimately show ?thesis by blast
qed

lemma getValidToken_refresh:
  assumes "credentials s = Some c" and "expires_at c - now \<le> 300000" and "truthy (refresh_token c)"
  shows "getValidToken s now result later =
         (getValidToken_resume (snd (refreshToken_settle s result later))
            (fst (refreshToken_settle s result later)),
          snd (refreshToken_settle s result later),
          (case tokenRefreshPromise s of
             None \<Rightarrow> [refresh_request s (the (refresh_token c))]
           | Some p \<Rightarrow> []))"
proof -
  have v: "\<not> valid (validateToken s now)" "needs_refresh (validateToken s now) = Some True"
    using assms by (simp_all add: validateToken_def Let_def)
  have st: "getValidToken_start s 0 now = Awaits (refreshToken_start s 0 None)"
    using v by (simp add: getValidToken_start_def Let_def)
  have settle: "refreshToken_settle (s\<lparr>tokenRefreshPromise := Some 0\<rparr>) result later =
                refreshToken_settle s result later"
    by (simp add: refreshToken_settle_def Let_def split: outcome.splits)
  show ?thesis
  proof (cases "tokenRefreshPromise s")
    case None
    then have "refreshToken_start s 0 None =
               Issued 0 (refresh_request s (the (refresh_token c))) (s\<lparr>tokenRefreshPromise := Some 0\<rparr>)"
      using assms by (simp add: refreshToken_start_def Let_def truthy_def)
    then show ?thesis
      using None st settle by (simp add: getValidToken_def case_prod_beta)
  next
    case (Some p)
    then have "refreshToken_start s 0 None = Joined p"
      by (simp add: refreshToken_start_def)
    then show ?thesis
      using Some st by (simp add: getValidToken_def case_prod_beta)
  qed
qed

text \<open>
  C3: \<open>getValidToken\<close>, run to its end. With a token that is valid (it expires more than
  five minutes after \<open>now\<close>) it returns the stored access token, sends nothing and leaves
  the service as it is. With an invalid token and a refresh token present it awaits a
  refresh (its own call with the stored refresh token, or the refresh in flight); when
  the refresh resolves, the new credentials are stored and their access token is returned,
  and when it is rejected the classified failure is thrown. With an invalid token and no
  refresh possible (no credentials, or no refresh token) it throws an
  \<open>AuthenticationError\<close>, sends nothing and leaves the service as it is.
\<close>

theorem getValidToken_cases:
  "(credentials s = Some c \<and> expires_at c - now > 300000 \<longrightarrow>
      getValidToken s now result later = (Inr (access_token c), s, [])) \<and>
   (credentials s = Some c \<and> expires_at c - now \<le> 300000 \<and> truthy (refresh_token c) \<longrightarrow>
      getValidToken s now (Resolved td) later =
        (Inr (tr_access_token td),
         s\<lparr>credentials := Some (grantCredentials td later), tokenRefreshPromise := None\<rparr>,
         (case tokenRefreshPromise s of
            None \<Rightarrow> [refresh_request s (the (refresh_token c))]
          | Some p \<Rightarrow> [])) \<and>
      getValidToken s now (Rejected err) later =
        (Inl (Payfirma (handleAuthError err)),
         s\<lparr>tokenRefreshPromise := None\<rparr>,
         (case tokenRefreshPromise s of
            None \<Rightarrow> [refresh_request s (the (refresh_token c))]
          | Some p \<Rightarrow> []))) \<and>
   (credentials s = None \<or>
    (credentials s = Some c \<and> expires_at c - now \<le> 300000 \<and> \<not> truthy (refresh_token c)) \<longrightarrow>
      getValidToken s now result later =
        (Inl (Payfirma (new_AuthenticationError
                ''No valid token available and cannot refresh'' None None None)), s, []) \<and>
      name (new_AuthenticationError
              ''No valid token available and cannot refresh'' None None None) = AuthenticationError)"
proof -
  have ok: "getValidToken s now result later = (Inr (access_token c), s, [])"
    if "credentials s = Some c" "expires_at c - now > 300000"
    using that by (simp add: getValidToken_def getValidToken_start_def validateToken_def Let_def)
  have refresh: "getValidToken s now (Resolved td) later =
        (Inr (tr_access_token td),
         s\<lparr>credentials := Some (grantCredentials td later), tokenRefreshPromise := None\<rparr>,
         (case tokenRefreshPromise s of
            None \<Rightarrow> [refresh_request s (the (refresh_token c))]
          | Some p \<Rightarrow> [])) \<and>
      getValidToken s now (Rejected err) later =
        (Inl (Payfirma (handleAuthError err)),
         s\<lparr>tokenRefreshPromise := None\<rparr>,
         (case tokenRefreshPromise s of
            None \<Rightarrow> [refresh_request s (the (refresh_token c))]
          | Some p \<Rightarrow> []))"
    if h: "credentials s = Some c" "expires_at c - now \<le> 300000" "truthy (refresh_token c)"
    unfolding getValidToken_refresh[OF h]
    by (simp add: refreshToken_settle_def Let_def getValidToken_resume_def grantCredentials_def)
  have none: "getValidToken s now result later =
        (Inl (Payfirma (new_AuthenticationError
                ''No valid token available and cannot refresh'' None None None)), s, [])"
    if "credentials s = None \<or>
        (credentials s = Some c \<and> expires_at c - now \<le> 300000 \<and> \<not> truthy (refresh_token c))"
    using that
    by (auto simp: getValidToken_def getValidToken_start_def validateToken_def Let_def)
  have nm: "name (new_AuthenticationError
              ''No valid token available and cannot refresh'' None None None) = AuthenticationError"
    by (simp add: new_AuthenticationError_def)
  show ?thesis
    using ok refresh none nm by blast
qed

theorem getValidToken_cases_witness:
  "getValidToken sample_service 700000 (Resolved sample_token) 700500 = (Inr ''old'', sample_service, []) \<and>
   getValidToken sample_service 1000000 (Resolved sample_token) 1000500 =
     (Inr ''new'',
      sample_service\<lparr>credentials := Some (grantCredentials sample_token 1000500),
                     tokenRefreshPromise := None\<rparr>,
      [refresh_request sample_service ''r1'']) \<and>
   getValidToken (new_AuthService sample_config) 1000000 (Resolved sample_token) 1000500 =
     (Inl (Payfirma (new_AuthenticationError
             ''No valid token available and cannot refresh'' None None None)),
      new_AuthService sample_config, [])"
proof -
  have b: "credentials sample_service = Some sample_credentials"
    "expires_at sample_credentials - 700000 > 300000"
    "expires_at sample_credentials - 1000000 \<le> 300000"
    "truthy (refresh_token sample_credentials)"
    "access_token sample_credentials = ''old''"
    "tokenRefreshPromise sample_service = None"
    "the (refresh_token sample_credentials) = ''r1''"
    "tr_access_token sample_token = ''new''"
    by (simp_all add: sample_service_def sample_credentials_def sample_token_def truthy_def)
  have a: "credentials (new_AuthService sample_config) = None"
    by (simp add: new_AuthService_def)
  have "getValidToken sample_service 700000 (Resolved sample_token) 700500 =
        (Inr (access_token sample_credentials), sample_service, [])"
    using getValidToken_cases[where s = sample_service and c = sample_credentials and now = 700000
        and result = "Resolved sample_token" and later = 700500] b(1,2) by blast
  then have x: "getValidToken sample_service 700000 (Resolved sample_token) 700500 =
        (Inr ''old'', sample_service, [])"
    by (simp only: b(5))
  have "getValidToken sample_service 1000000 (Resolved sample_token) 1000500 =
        (Inr (tr_access_token sample_token),
         sample_service\<lparr>credentials := Some (grantCredentials sample_token 1000500),
                        tokenRefreshPromise := None\<rparr>,
         (case tokenRefreshPromise sample_service of
            None \<Rightarrow> [refresh_request sample_service (the (refresh_token sample_credentials))]
          | Some p \<Rightarrow> []))"
    using getValidToken_cases[where s = sample_service and c = sample_credentials and now = 1000000
        and td = sample_token and later = 1000500]
      b(1,3,4) by blast
  then have y: "getValidToken sample_service 1000000 (Resolved sample_token) 1000500 =
        (Inr ''new'',
         sample_service\<lparr>credentials := Some (grantCredentials sample_token 1000500),
                        tokenRefreshPromise := None\<rparr>,
         [refresh_request sample_service ''r1''])"
    by (simp add: b(6,7,8))
  have z: "getValidToken (new_AuthService sample_config) 1000000 (Resolved sample_token) 1000500 =
        (Inl (Payfirma (new_AuthenticationError
                ''No valid token available and cannot refresh'' None None None)),
         new_AuthService sample_config, [])"
    using getValidToken_cases[where s = "new_AuthService sample_config" and now = 1000000
        and result = "Resolved sample_token" and later = 1000500] a by blast
  show ?thesis
    by (intro conjI) (rule x y z)+
qed

text \<open>
  C8: \<open>revokeToken\<close> returns normally and leaves the service without credentials, whatever
  the service held and whatever the outcome of the remote call (a response, an HTTP
  error, or a failure of the network): afterwards \<open>validateToken\<close> reports that no
  credentials are available. The one remote call is the DELETE with the stored access
  token, and none is sent when there were no credentials. The part that runs after the
  DELETE has settled does so from any state \<open>s'\<close> the service is in by then.
\<close>

theorem revokeToken_clears:
  "fst (revokeToken s result) = Inr () \<and>
   credentials (fst (snd (revokeToken s result))) = None \<and>
   validateToken (fst (snd (revokeToken s result))) now =
     \<lparr>valid = False, tv_expires_at = None,
      reason = Some ''No credentials available'', needs_refresh = None\<rparr> \<and>
   snd (snd (revokeToken s result)) =
     (case credentials s of None \<Rightarrow> [] | Some c \<Rightarrow> [DeleteRevokeToken (access_token c)]) \<and>
   fst (revokeToken_settle s' result) = Inr () \<and>
   credentials (snd (revokeToken_settle s' result)) = None"
  by (simp add: revokeToken_def revokeToken_start_def revokeToken_settle_def validateToken_def
        Let_def split: option.splits outcome.splits sum.splits)

theorem revokeToken_clears_witness:
  "fst (revokeToken sample_service (Rejected sample_timeout)) = Inr () \<and>
   credentials (fst (snd (revokeToken sample_service (Rejected sample_timeout)))) = None \<and>
   snd (snd (revokeToken sample_service (Rejected sample_timeout))) = [DeleteRevokeToken ''old'']"
proof -
  have c: "credentials sample_service = Some sample_credentials"
    "access_token sample_credentials = ''old''"
    by (simp_all add: sample_service_def sample_credentials_def)
  show ?thesis
    using revokeToken_clears[where s = sample_service and result = "Rejected sample_timeout"] c
    by simp
qed

section \<open>Error classification\<close>

lemma handleError_coded:
  assumes "response e = Some r" and "data r = Some b" and "body_error b = Some c" and "c \<noteq> []"
  shows "handleError e =
         fromApiResponse
           \<lparr>er_code = c, er_message = or_default (body_message b) ''Plan service error'',
            er_status = Some (status r), er_details = Some (Body (data r)),
            er_request_id = map_of (headers r) ''x-request-id''\<rparr> (Some e)"
  using assms by (simp add: handleError_def truthy_def)

lemma fromApiResponse_name:
  "name (fromApiResponse resp cs) =
     (let cd = er_code resp in
      if cd \<in> set [''AUTHENTICATION_FAILED'', ''TOKEN_EXPIRED'', ''INVALID_CREDENTIALS'']
        then AuthenticationError
      else if cd \<in> set [''VALIDATION_ERROR'', ''REQUIRED_FIELD_MISSING'', ''INVALID_FORMAT'']
        then ValidationError
      else if cd \<in> set [''PAYMENT_DECLINED'', ''PAYMENT_FAILED'', ''CARD_DECLINED'']
        then PaymentError
      else if cd = ''RATE_LIMIT_EXCEEDED'' then RateLimitError
      else if cd \<in> set [''TRANSACTION_NOT_FOUND'', ''CUSTOMER_NOT_FOUND'', ''PLAN_NOT_FOUND'',
                         ''INVOICE_NOT_FOUND'']
        then NotFoundError
      else ApiError)"
  by (simp add: fromApiResponse_def Let_def new_AuthenticationError_def new_ValidationError_def
        new_PaymentError_def new_RateLimitError_def new_NotFoundError_def new_ApiError_def)

lemma fromApiResponse_unmatched:
  assumes "er_code resp \<notin> set known_codes"
  shows "fromApiResponse resp cs =
         new_ApiError (er_message resp)
           (case er_status resp of None \<Rightarrow> 500 | Some n \<Rightarrow> if n = 0 then 500 else n)
           (er_code resp) (er_details resp) (er_request_id resp)"
  using assms by (simp add: fromApiResponse_def Let_def known_codes_def)

text \<open>
  C4: the classifier of a service, \<open>handleError\<close>, is a total function into the typed
  errors, and it dispatches on the error code string of the body. A 404 whose body has
  the code \<^verbatim>\<open>CUSTOMER_NOT_FOUND\<close> and the message \<^verbatim>\<open>x\<close> gives a \<open>NotFoundError\<close>. For a
  response with a non-empty code, each code that the switch names gives the class of its
  case, and a code the switch does not name gives an \<open>ApiError\<close> that carries the status of
  the response and that code (the status of a response is not 0); so status 500 with
  \<^verbatim>\<open>WEIRD_CODE\<close> gives an \<open>ApiError\<close> with status 500. A response without a code gives an
  \<open>ApiError\<close> with its status as well. A failure with no response, the request having
  been sent, gives a \<open>NetworkError\<close> whatever else the failure carries.
\<close>

theorem handleError_classification:
  "(response e = Some r \<and> status r = 404 \<and> data r = Some b \<and>
      body_error b = Some ''CUSTOMER_NOT_FOUND'' \<and> body_message b = Some ''x'' \<longrightarrow>
        name (handleError e) = NotFoundError \<and> statusCode (handleError e) = Some 404 \<and>
        message (handleError e) = ''x'') \<and>
   (response e = Some r \<and> data r = Some b \<and> body_error b = Some c \<and> c \<noteq> [] \<longrightarrow>
      (c \<in> set [''AUTHENTICATION_FAILED'', ''TOKEN_EXPIRED'', ''INVALID_CREDENTIALS''] \<longrightarrow>
         name (handleError e) = AuthenticationError) \<and>
      (c \<in> set [''VALIDATION_ERROR'', ''REQUIRED_FIELD_MISSING'', ''INVALID_FORMAT''] \<longrightarrow>
         name (handleError e) = ValidationError) \<and>
      (c \<in> set [''PAYMENT_DECLINED'', ''PAYMENT_FAILED'', ''CARD_DECLINED''] \<longrightarrow>
         name (handleError e) = PaymentError) \<and>
      (c = ''RATE_LIMIT_EXCEEDED'' \<longrightarrow> name (handleError e) = RateLimitError) \<and>
      (c \<in> set [''TRANSACTION_NOT_FOUND'', ''CUSTOMER_NOT_FOUND'', ''PLAN_NOT_FOUND'',
                 ''INVOICE_NOT_FOUND''] \<longrightarrow>
         name (handleError e) = NotFoundError) \<and>
      (c \<notin> set known_codes \<and> status r \<noteq> 0 \<longrightarrow>
         name (handleError e) = ApiError \<and> statusCode (handleError e) = Some (status r) \<and>
         code (handleError e) = c)) \<and>
   (response e = Some r \<and> status r = 500 \<and> data r = Some b \<and>
      body_error b = Some ''WEIRD_CODE'' \<longrightarrow>
        name (handleError e) = ApiError \<and> statusCode (handleError e) = Some 500) \<and>
   (response e = Some r \<and> \<not> truthy (Option.bind (data r) body_error) \<and> status r \<noteq> 0 \<longrightarrow>
      name (handleError e) = ApiError \<and> statusCode (handleError e) = Some (status r) \<and>
      code (handleError e) = ''API_ERROR'') \<and>
   (response e = None \<and> request e \<longrightarrow>
      name (handleError e) = NetworkError \<and> statusCode (handleError e) = None)"
proof -
  have first: "name (handleError e) = NotFoundError \<and> statusCode (handleError e) = Some 404 \<and>
        message (handleError e) = ''x''"
    if "response e = Some r" "status r = 404" "data r = Some b"
      "body_error b = Some ''CUSTOMER_NOT_FOUND''" "body_message b = Some ''x''"
    using that
    by (simp add: handleError_coded[of e r b "''CUSTOMER_NOT_FOUND''"] fromApiResponse_def
          new_NotFoundError_def or_default_def)
  have coded: "(c \<in> set [''AUTHENTICATION_FAILED'', ''TOKEN_EXPIRED'', ''INVALID_CREDENTIALS''] \<longrightarrow>
         name (handleError e) = AuthenticationError) \<and>
      (c \<in> set [''VALIDATION_ERROR'', ''REQUIRED_FIELD_MISSING'', ''INVALID_FORMAT''] \<longrightarrow>
         name (handleError e) = ValidationError) \<and>
      (c \<in> set [''PAYMENT_DECLINED'', ''PAYMENT_FAILED'', ''CARD_DECLINED''] \<longrightarrow>
         name (handleError e) = PaymentError) \<and>
      (c = ''RATE_LIMIT_EXCEEDED'' \<longrightarrow> name (handleError e) = RateLimitError) \<and>
      (c \<in> set [''TRANSACTION_NOT_FOUND'', ''CUSTOMER_NOT_FOUND'', ''PLAN_NOT_FOUND'',
                 ''INVOICE_NOT_FOUND''] \<longrightarrow>
         name (handleError e) = NotFoundError) \<and>
      (c \<notin> set known_codes \<and> status r \<noteq> 0 \<longrightarrow>
         name (handleError e) = ApiError \<and> statusCode (handleError e) = Some (status r) \<and>
         code (handleError e) = c)"
    if h: "response e = Some r" "data r = Some b" "body_error b = Some c" "c \<noteq> []"
  proof -
    note eq = handleError_coded[OF h]
    have known: "name (handleError e) =
       (if c \<in> set [''AUTHENTICATION_FAILED'', ''TOKEN_EXPIRED'', ''INVALID_CREDENTIALS'']
          then AuthenticationError
        else if c \<in> set [''VALIDATION_ERROR'', ''REQUIRED_FIELD_MISSING'', ''INVALID_FORMAT'']
          then ValidationError
        else if c \<in> set [''PAYMENT_DECLINED'', ''PAYMENT_FAILED'', ''CARD_DECLINED'']
          then PaymentError
        else if c = ''RATE_LIMIT_EXCEEDED'' then RateLimitError
        else if c \<in> set [''TRANSACTION_NOT_FOUND'', ''CUSTOMER_NOT_FOUND'', ''PLAN_NOT_FOUND'',
                          ''INVOICE_NOT_FOUND'']
          then NotFoundError
        else ApiError)"
      unfolding eq fromApiResponse_name by (simp add: Let_def)
    have unmatched: "name (handleError e) = ApiError \<and>
        statusCode (handleError e) = Some (status r) \<and> code (handleError e) = c"
      if "c \<notin> set known_codes" "status r \<noteq> 0"
      unfolding eq using that by (simp add: fromApiResponse_unmatched new_ApiError_def)
    show ?thesis
      using unmatched by (auto simp: known)
  qed
  have weird: "name (handleError e) = ApiError \<and> statusCode (handleError e) = Some 500"
    if "response e = Some r" "status r = 500" "data r = Some b" "body_error b = Some ''WEIRD_CODE''"
    using that
    by (simp add: handleError_coded[of e r b "''WEIRD_CODE''"] fromApiResponse_def new_ApiError_def)
  have uncoded: "name (handleError e) = ApiError \<and> statusCode (handleError e) = Some (status r) \<and>
      code (handleError e) = ''API_ERROR''"
    if "response e = Some r" "\<not> truthy (Option.bind (data r) body_error)" "status r \<noteq> 0"
    using that by (simp add: handleError_def fromApiResponse_def new_ApiError_def)
  have net: "name (handleError e) = NetworkError \<and> statusCode (handleError e) = None"
    if "response e = None" "request e"
    using that by (simp add: handleError_def networkError_def new_NetworkError_def)
  show ?thesis
    using first coded weird uncoded net by blast
qed

theorem handleError_classification_witness:
  "name (handleError sample_not_found) = NotFoundError \<and>
   name (handleError sample_weird) = ApiError \<and>
   statusCode (handleError sample_weird) = Some 500 \<and>
   name (handleError sample_refused) = NetworkError"
proof -
  let ?r1 = "\<lparr>status = 404,
              data = Some \<lparr>body_error = Some ''CUSTOMER_NOT_FOUND'', body_message = Some ''x'',
                           body_error_description = None\<rparr>,
              headers = []\<rparr>"
  let ?b1 = "\<lparr>body_error = Some ''CUSTOMER_NOT_FOUND'', body_message = Some ''x'',
              body_error_description = None\<rparr>"
  let ?r2 = "\<lparr>status = 500,
              data = Some \<lparr>body_error = Some ''WEIRD_CODE'', body_message = None,
                           body_error_description = None\<rparr>,
              headers = []\<rparr>"
  let ?b2 = "\<lparr>body_error = Some ''WEIRD_CODE'', body_message = None,
              body_error_description = None\<rparr>"
  have h1: "response sample_not_found = Some ?r1" "status ?r1 = 404" "data ?r1 = Some ?b1"
    "body_error ?b1 = Some ''CUSTOMER_NOT_FOUND''" "body_message ?b1 = Some ''x''"
    by (simp_all add: sample_not_found_def)
  have h2: "response sample_weird = Some ?r2" "status ?r2 = 500" "data ?r2 = Some ?b2"
    "body_error ?b2 = Some ''WEIRD_CODE''" "''WEIRD_CODE'' \<noteq> []"
    "''WEIRD_CODE'' \<notin> set known_codes" "status ?r2 \<noteq> 0"
    by (simp_all add: sample_weird_def known_codes_def)
  have h3: "response sample_refused = None" "request sample_refused"
    by (simp_all add: sample_refused_def)
  have a: "name (handleError sample_not_found) = NotFoundError"
    using handleError_classification[of sample_not_found ?r1 ?b1] h1 by blast
  have "name (handleError sample_weird) = ApiError \<and>
        statusCode (handleError sample_weird) = Some (status ?r2)"
    using handleError_classification[of sample_weird ?r2 ?b2 "''WEIRD_CODE''"] h2 by blast
  then have b: "name (handleError sample_weird) = ApiError"
    "statusCode (handleError sample_weird) = Some 500"
    by simp_all
  have c: "name (handleError sample_refused) = NetworkError"
    using handleError_classification[of sample_refused] h3 by blast
  show ?thesis
    by (intro conjI) (rule a b c)+
qed

subsection \<open>Timeouts\<close>











section \<open>Construction of the SDK\<close>

text \<open>
  C9, as the claim states it, fails. With a client id and a client secret, the timeout 0 is
  a timeout value outside 1000 ms to 300000 ms, yet \<open>validateConfig\<close> accepts the
  configuration and the construction succeeds: \<^verbatim>\<open>config.timeout && (...)\<close> treats 0 like a
  timeout that is left out.
\<close>

theorem timeout_zero_counterexample:
  "timeout (sample_config\<lparr>timeout := Some (Finite 0)\<rparr>) = Some (Finite 0) \<and>
   invalid_config_spec (sample_config\<lparr>timeout := Some (Finite 0)\<rparr>) \<and>
   validateConfig (sample_config\<lparr>timeout := Some (Finite 0)\<rparr>) = Inr () \<and>
   \<not> isl (new_PayfirmaSDK (sample_config\<lparr>timeout := Some (Finite 0)\<rparr>))"
  by (simp add: sample_config_def invalid_config_spec_def validateConfig_def new_PayfirmaSDK_def
        truthy_def)

text \<open>
  C9, amended: the construction of the SDK, which sends nothing, fails exactly when the
  client id is empty or missing, the client secret is empty or missing, or the timeout is
  a truthy number, that is, neither 0 nor \<^verbatim>\<open>NaN\<close>, outside 1000 ms to 300000 ms; the error
  is then a \<open>ConfigurationError\<close>. A timeout of 500 is refused. A configuration with both
  credentials whose timeout is left out, is 0, is \<^verbatim>\<open>NaN\<close>, or lies within the bounds is
  accepted: the guard skips the range check for a timeout that is not truthy.
\<close>

theorem construction_rejects:
  "isl (new_PayfirmaSDK cfg) =
     (\<not> truthy (clientId cfg) \<or> \<not> truthy (clientSecret cfg) \<or>
      (case timeout cfg of
         None \<Rightarrow> False
       | Some (Finite x) \<Rightarrow> x \<noteq> 0 \<and> (x < 1000 \<or> x > 300000)
       | Some NaN \<Rightarrow> False
       | Some Infinity \<Rightarrow> True
       | Some NegInfinity \<Rightarrow> True)) \<and>
   (\<forall>e. new_PayfirmaSDK cfg = Inl e \<longrightarrow>
      name e = ConfigurationError \<and> code e = ''INVALID_CONFIGURATION'') \<and>
   (truthy (clientId cfg) \<and> truthy (clientSecret cfg) \<and> timeout cfg = Some (Finite 500) \<longrightarrow>
      new_PayfirmaSDK cfg =
        Inl (new_ConfigurationError ''Timeout must be between 1000ms and 300000ms'' None)) \<and>
   (truthy (clientId cfg) \<and> truthy (clientSecret cfg) \<and>
    (timeout cfg = None \<or> timeout cfg = Some (Finite 0) \<or> timeout cfg = Some NaN \<or>
     (\<exists>x. timeout cfg = Some (Finite x) \<and> 1000 \<le> x \<and> x \<le> 300000)) \<longrightarrow>
      validateConfig cfg = Inr () \<and> \<not> isl (new_PayfirmaSDK cfg))"
proof -
  have v: "isl (validateConfig cfg) =
     (\<not> truthy (clientId cfg) \<or> \<not> truthy (clientSecret cfg) \<or>
      (case timeout cfg of
         None \<Rightarrow> False
       | Some (Finite x) \<Rightarrow> x \<noteq> 0 \<and> (x < 1000 \<or> x > 300000)
       | Some NaN \<Rightarrow> False
       | Some Infinity \<Rightarrow> True
       | Some NegInfinity \<Rightarrow> True))"
    by (auto simp: validateConfig_def split: option.splits number.splits)
  have n: "isl (new_PayfirmaSDK cfg) = isl (validateConfig cfg)"
    by (simp add: new_PayfirmaSDK_def split: sum.splits)
  have e: "name e = ConfigurationError \<and> code e = ''INVALID_CONFIGURATION''"
    if "new_PayfirmaSDK cfg = Inl e" for e
    using that
    by (auto simp: new_PayfirmaSDK_def validateConfig_def new_ConfigurationError_def
          split: sum.splits if_splits)
  have r: "new_PayfirmaSDK cfg =
        Inl (new_ConfigurationError ''Timeout must be between 1000ms and 300000ms'' None)"
    if "truthy (clientId cfg)" "truthy (clientSecret cfg)" "timeout cfg = Some (Finite 500)"
    using that by (simp add: new_PayfirmaSDK_def validateConfig_def)
  have a: "validateConfig cfg = Inr ()"
    if "truthy (clientId cfg)" "truthy (clientSecret cfg)"
      "timeout cfg = None \<or> timeout cfg = Some (Finite 0) \<or> timeout cfg = Some NaN \<or>
       (\<exists>x. timeout cfg = Some (Finite x) \<and> 1000 \<le> x \<and> x \<le> 300000)"
    using that by (auto simp: validateConfig_def)
  have a': "\<not> isl (new_PayfirmaSDK cfg)" if "validateConfig cfg = Inr ()"
    using that by (simp add: n)
  have i: "isl (new_PayfirmaSDK cfg) =
     (\<not> truthy (clientId cfg) \<or> \<not> truthy (clientSecret cfg) \<or>
      (case timeout cfg of
         None \<Rightarrow> False
       | Some (Finite x) \<Rightarrow> x \<noteq> 0 \<and> (x < 1000 \<or> x > 300000)
       | Some NaN \<Rightarrow> False
       | Some Infinity \<Rightarrow> True
       | Some NegInfinity \<Rightarrow> True))"
    by (simp only: n v)
  show ?thesis
    by (intro conjI allI impI) (use i e r a a' in blast)+
qed

theorem construction_rejects_witness:
  "new_PayfirmaSDK (sample_config\<lparr>timeout := Some (Finite 500)\<rparr>) =
     Inl (new_ConfigurationError ''Timeout must be between 1000ms and 300000ms'' None) \<and>
   isl (new_PayfirmaSDK (sample_config\<lparr>clientId := Some ''''\<rparr>)) \<and>
   \<not> isl (new_PayfirmaSDK (sample_config\<lparr>timeout := Some (Finite 30000)\<rparr>)) \<and>
   \<not> isl (new_PayfirmaSDK (sample_config\<lparr>timeout := Some NaN\<rparr>))"
proof -
  have h: "truthy (clientId (sample_config\<lparr>timeout := Some (Finite 500)\<rparr>))"
    "truthy (clientSecret (sample_config\<lparr>timeout := Some (Finite 500)\<rparr>))"
    "timeout (sample_config\<lparr>timeout := Some (Finite 500)\<rparr>) = Some (Finite 500)"
    "\<not> truthy (clientId (sample_config\<lparr>clientId := Some ''''\<rparr>))"
    "truthy (clientId (sample_config\<lparr>timeout := Some (Finite 30000)\<rparr>))"
    "truthy (clientSecret (sample_config\<lparr>timeout := Some (Finite 30000)\<rparr>))"
    "timeout (sample_config\<lparr>timeout := Some (Finite 30000)\<rparr>) = Some (Finite 30000)"
    "truthy (clientId (sample_config\<lparr>timeout := Some NaN\<rparr>))"
    "truthy (clientSecret (sample_config\<lparr>timeout := Some NaN\<rparr>))"
    "timeout (sample_config\<lparr>timeout := Some NaN\<rparr>) = Some NaN"
    by (simp_all add: sample_config_def truthy_def)
  have b: "(1000::real) \<le> 30000 \<and> (30000::real) \<le> 300000"
    by simp
  have "new_PayfirmaSDK (sample_config\<lparr>timeout := Some (Finite 500)\<rparr>) =
     Inl (new_ConfigurationError ''Timeout must be between 1000ms and 300000ms'' None)"
    using construction_rejects[of "sample_config\<lparr>timeout := Some (Finite 500)\<rparr>"] h(1,2,3)
    by blast
  moreover have "isl (new_PayfirmaSDK (sample_config\<lparr>clientId := Some ''''\<rparr>))"
    using construction_rejects[of "sample_config\<lparr>clientId := Some ''''\<rparr>"] h(4) by blast
  moreover have "\<not> isl (new_PayfirmaSDK (sample_config\<lparr>timeout := Some (Finite 30000)\<rparr>))"
    using construction_rejects[of "sample_config\<lparr>timeout := Some (Finite 30000)\<rparr>"] h(5,6,7) b
    by blast
  moreover have "\<not> isl (new_PayfirmaSDK (sample_config\<lparr>timeout := Some NaN\<rparr>))"
    using construction_rejects[of "sample_config\<lparr>timeout := Some NaN\<rparr>"] h(8,9,10) by blast
  ultimately show ?thesis by blast
qed

end
